theory Spec2Isabelle
  imports Main "HOL-Library.Char_ord" "HOL-Library.List_Lexorder" "HOL-Library.Multiset"
    "HOL-Library.AList"
begin

section \<open>Field arithmetic (sc1\_public.js and sc2\_attr.js, lines 8 to 14)\<close>

text \<open>
  Both chaincodes declare the same modulus and the same \<open>modP\<close>. The values are JavaScript
  BigInts, that is unbounded integers: \<^typ>\<open>int\<close>.
\<close>

definition PRIME_P :: int where
  "PRIME_P = 21888242871839275222246405745257275088548364400416034343698204186575808495617"

text \<open>
  The BigInt operator \<open>%\<close> truncates towards zero: the remainder has the sign of the
  dividend. HOL's \<open>mod\<close> on \<^typ>\<open>int\<close> takes the sign of the divisor, so it is written out.
  (A zero divisor, on which \<open>%\<close> throws, does not occur: the only divisor is \<open>PRIME_P\<close>.)
\<close>

definition js_rem :: "int \<Rightarrow> int \<Rightarrow> int" where
  "js_rem x y = (if x < 0 then - ((- x) mod \<bar>y\<bar>) else x mod \<bar>y\<bar>)"

definition modP :: "int \<Rightarrow> int" where
  "modP x = (let r = js_rem x PRIME_P in if r \<ge> 0 then r else r + PRIME_P)"

section \<open>Errors\<close>

text \<open>
  Every \<open>throw\<close> of the chaincode, and every exception a built-in raises on the way, is a
  value: \<open>LengthMismatch\<close> is the error of \<open>innerProductMod\<close> (with the two lengths of its
  message), \<open>NoDataMeta\<close>, \<open>NoSVector\<close> and \<open>NoHiddenAttributes\<close> are the three
  "not found" errors, \<open>SyntaxError\<close> is raised by \<open>BigInt\<close> on a string that is no integer
  literal, \<open>TypeError\<close> by a property read on \<open>undefined\<close> (a stored document of another
  shape), \<open>RangeError\<close> by \<open>toISOString\<close> on an instant outside the range of \<open>Date\<close>.
\<close>

datatype error =
    LengthMismatch nat nat
  | NoDataMeta string
  | NoSVector string
  | NoHiddenAttributes string
  | SyntaxError
  | TypeError
  | RangeError

text \<open>\<open>xs.map(f)\<close> where \<open>f\<close> may throw: the first exception ends the traversal.\<close>

fun mapE :: "('a \<Rightarrow> error + 'b) \<Rightarrow> 'a list \<Rightarrow> error + 'b list" where
  "mapE f [] = Inr []"
| "mapE f (x # xs) =
     (case f x of
        Inl e \<Rightarrow> Inl e
      | Inr y \<Rightarrow> (case mapE f xs of Inl e \<Rightarrow> Inl e | Inr ys \<Rightarrow> Inr (y # ys)))"

section \<open>Decimal strings: \<open>x.toString()\<close> and \<open>BigInt(x)\<close>\<close>

text \<open>
  Vector elements cross the chaincode boundary and sit in the ledger as decimal strings.
  \<open>toString\<close> of a BigInt prints the digits in base ten, with a leading minus sign for a
  negative value.
\<close>

definition digitChar :: "nat \<Rightarrow> char" where
  "digitChar d = ''0123456789'' ! d"

fun decimal :: "nat \<Rightarrow> string" where
  "decimal n = (if n < 10 then [digitChar n] else decimal (n div 10) @ [digitChar (n mod 10)])"

declare decimal.simps [simp del]

definition toString :: "int \<Rightarrow> string" where
  "toString x = (if x < 0 then CHR ''-'' # decimal (nat (- x)) else decimal (nat x))"

text \<open>
  \<open>BigInt(s)\<close> on a string follows StringToBigInt of ECMA-262: white space around the
  literal is dropped; the empty literal is \<open>0n\<close>; the literal is a run of decimal digits
  with an optional sign, or an unsigned run of digits after one of the prefixes \<open>0x\<close>,
  \<open>0o\<close>, \<open>0b\<close> (either case); anything else throws a SyntaxError. Strings are lists of
  8-bit characters here, so the white space recognised is the ASCII one (TAB, LF, VT, FF,
  CR, space).
\<close>

definition hexVal :: "char \<Rightarrow> nat option" where
  "hexVal c =
     map_of (zip ''0123456789abcdef'' [0, 1, 2, 3, 4, 5, 6, 7, 8, 9, 10, 11, 12, 13, 14, 15]
             @ zip ''ABCDEF'' [10, 11, 12, 13, 14, 15]) c"

definition digitVal :: "nat \<Rightarrow> char \<Rightarrow> nat option" where
  "digitVal radix c =
     (case hexVal c of None \<Rightarrow> None | Some d \<Rightarrow> if d < radix then Some d else None)"

fun parseDigits :: "nat \<Rightarrow> string \<Rightarrow> nat \<Rightarrow> nat option" where
  "parseDigits radix [] acc = Some acc"
| "parseDigits radix (c # cs) acc =
     (case digitVal radix c of
        None \<Rightarrow> None
      | Some d \<Rightarrow> parseDigits radix cs (acc * radix + d))"

definition parseNat :: "nat \<Rightarrow> string \<Rightarrow> int option" where
  "parseNat radix ds = (if ds = [] then None else map_option int (parseDigits radix ds 0))"

definition isStrWhiteSpace :: "char \<Rightarrow> bool" where
  "isStrWhiteSpace c = (c \<in> set [CHR 0x09, CHR 0x0A, CHR 0x0B, CHR 0x0C, CHR 0x0D, CHR '' ''])"

definition trim :: "string \<Rightarrow> string" where
  "trim s = rev (dropWhile isStrWhiteSpace (rev (dropWhile isStrWhiteSpace s)))"

definition signedInteger :: "string \<Rightarrow> int option" where
  "signedInteger t =
     (case t of
        [] \<Rightarrow> None
      | c # ds \<Rightarrow>
          if c = CHR ''-'' then map_option uminus (parseNat 10 ds)
          else if c = CHR ''+'' then parseNat 10 ds
          else parseNat 10 t)"

definition strIntegerLiteral :: "string \<Rightarrow> int option" where
  "strIntegerLiteral t =
     (case t of
        c # d # ds \<Rightarrow>
          if c = CHR ''0'' \<and> (d = CHR ''x'' \<or> d = CHR ''X'') then parseNat 16 ds
          else if c = CHR ''0'' \<and> (d = CHR ''o'' \<or> d = CHR ''O'') then parseNat 8 ds
          else if c = CHR ''0'' \<and> (d = CHR ''b'' \<or> d = CHR ''B'') then parseNat 2 ds
          else signedInteger t
      | _ \<Rightarrow> signedInteger t)"

definition BigInt :: "string \<Rightarrow> error + int" where
  "BigInt s =
     (let t = trim s in
      if t = [] then Inr 0
      else (case strIntegerLiteral t of None \<Rightarrow> Inl SyntaxError | Some v \<Rightarrow> Inr v))"

section \<open>The inner product (sc1\_public.js, lines 16 to 27)\<close>

text \<open>
  The \<open>for\<close> loop of \<open>innerProductMod\<close>, with its counter \<open>i\<close> and its accumulator
  \<open>sum\<close> (written \<open>sum_acc\<close>). The loop is entered only after the length check, so
  \<open>P ! i\<close> is read in range.
\<close>

function innerProductLoop :: "int list \<Rightarrow> int list \<Rightarrow> nat \<Rightarrow> int \<Rightarrow> int" where
  "innerProductLoop S P i sum_acc =
     (if i < length S then
        (let s = modP (S ! i);
             p = modP (P ! i)
         in innerProductLoop S P (i + 1) (modP (sum_acc + modP (s * p))))
      else sum_acc)"
  by pat_completeness auto
termination
  by (relation "measure (\<lambda>(S, P, i, sum_acc). length S - i)") auto

declare innerProductLoop.simps [simp del]

definition innerProductMod :: "int list \<Rightarrow> int list \<Rightarrow> error + int" where
  "innerProductMod S P =
     (if length S \<noteq> length P then Inl (LengthMismatch (length S) (length P))
      else Inr (innerProductLoop S P 0 0))"

section \<open>The ledger\<close>

text \<open>
  Modelled from the spec: the ledger gateway (\<open>ctx.stub\<close> of fabric-shim, which is not part
  of the repository). A composite key is a namespace tag with an ordered list of parts, and
  two composite keys are equal only if tag and parts are; \<open>getState\<close> and \<open>putState\<close> read and
  write one key; a scan by partial composite key returns the entries whose key has the
  given tag and begins with the given parts, in the order of their keys.
\<close>

datatype key = CompositeKey (objectType: string) (attributes: "string list")

definition createCompositeKey :: "string \<Rightarrow> string list \<Rightarrow> key" where
  "createCompositeKey objType attrs = CompositeKey objType attrs"

text \<open>
  The documents the two chaincodes store. Each is written with \<open>JSON.stringify\<close> and read
  back with \<open>JSON.parse\<close>; the JSON text in between is not modelled, a stored document is
  the object itself. In the same way a chaincode argument that carries a JSON array of
  strings is the list of these strings.
\<close>

record vec_rec =
  vec_userId :: string
  vec_S :: "string list"

record meta =
  meta_objectId :: string
  meta_ownerId :: string
  meta_policyVector :: "string list"
  meta_c0 :: string
  meta_addressCipher :: string
  meta_ctKeyPart :: string

text \<open>
  The field \<open>timestamp\<close> of an access record is the ISO-8601 text of an instant; the model
  keeps the instant, in milliseconds since the epoch, which that text denotes.
\<close>

record access =
  acc_objectId :: string
  acc_requesterId :: string
  acc_allowed :: bool
  acc_innerProduct :: string
  acc_txId :: string
  acc_timestamp :: int

record attr =
  attr_userId :: string
  attr_category :: string
  attr_chValue :: string
  attr_rValue :: string
  attr_aaenId :: string

datatype doc = VecDoc vec_rec | MetaDoc meta | AccessDoc access | AttrDoc attr

type_synonym ledger = "(key \<times> doc) list"

definition getState :: "ledger \<Rightarrow> key \<Rightarrow> doc option" where
  "getState l k = map_of l k"

definition putState :: "ledger \<Rightarrow> key \<Rightarrow> doc \<Rightarrow> ledger" where
  "putState l k v = AList.update k v l"

definition getStateByPartialCompositeKey :: "ledger \<Rightarrow> string \<Rightarrow> string list \<Rightarrow> (key \<times> doc) list" where
  "getStateByPartialCompositeKey l objType attrs =
     sort_key (\<lambda>kv. attributes (fst kv))
       (filter (\<lambda>kv. objectType (fst kv) = objType
                     \<and> take (length attrs) (attributes (fst kv)) = attrs) l)"

text \<open>
  The transaction context: \<open>ctx.stub.getTxID()\<close> and the two fields of
  \<open>ctx.stub.getTxTimestamp()\<close>.
\<close>

record tx_context =
  tx_id :: string
  tx_seconds :: int
  tx_nanos :: int

section \<open>SC1: policy vectors, user vectors and the decision (sc1\_public.js)\<close>

text \<open>
  An operation that writes returns the ledger it leaves together with its result, also
  when it throws: the ledger component of a failed call shows what had been written
  before the exception.
\<close>

definition CreateVec ::
  "ledger \<Rightarrow> string \<Rightarrow> string \<Rightarrow> string list \<Rightarrow> string \<Rightarrow> string \<Rightarrow> string
     \<Rightarrow> ledger \<times> (error + meta)" where
  "CreateVec l objectId ownerId P_str c0Base64 addressCipherBase64 ctKeyPartBase64 =
     (case mapE (\<lambda>x. case BigInt x of
                        Inl e \<Rightarrow> Inl e
                      | Inr v \<Rightarrow> Inr (toString (modP v))) P_str of
        Inl e \<Rightarrow> (l, Inl e)
      | Inr P_norm \<Rightarrow>
          (let m = \<lparr> meta_objectId = objectId,
                     meta_ownerId = ownerId,
                     meta_policyVector = P_norm,
                     meta_c0 = c0Base64,
                     meta_addressCipher = addressCipherBase64,
                     meta_ctKeyPart = ctKeyPartBase64 \<rparr>;
               k = createCompositeKey ''DATA'' [objectId]
           in (putState l k (MetaDoc m), Inr m)))"

definition GetDataMeta :: "ledger \<Rightarrow> string \<Rightarrow> error + doc" where
  "GetDataMeta l objectId =
     (let k = createCompositeKey ''DATA'' [objectId]
      in case getState l k of
           None \<Rightarrow> Inl (NoDataMeta objectId)
         | Some data \<Rightarrow> Inr data)"

definition StoreUserVec :: "ledger \<Rightarrow> string \<Rightarrow> string list \<Rightarrow> ledger \<times> (error + vec_rec)" where
  "StoreUserVec l userId S_str =
     (case mapE (\<lambda>x. case BigInt x of
                        Inl e \<Rightarrow> Inl e
                      | Inr v \<Rightarrow> Inr (toString (modP v))) S_str of
        Inl e \<Rightarrow> (l, Inl e)
      | Inr S_norm \<Rightarrow>
          (let r = \<lparr> vec_userId = userId, vec_S = S_norm \<rparr>;
               k = createCompositeKey ''S'' [userId]
           in (putState l k (VecDoc r), Inr r)))"

definition ReadUserVec :: "ledger \<Rightarrow> string \<Rightarrow> error + doc" where
  "ReadUserVec l userId =
     (let k = createCompositeKey ''S'' [userId]
      in case getState l k of
           None \<Rightarrow> Inl (NoSVector userId)
         | Some data \<Rightarrow> Inr data)"

text \<open>
  \<open>new Date(millis).toISOString()\<close> throws a RangeError when the instant is outside the
  range of \<open>Date\<close>, which is 8.64e15 milliseconds on either side of the epoch.
\<close>

definition toISOString :: "int \<Rightarrow> error + int" where
  "toISOString millis = (if \<bar>millis\<bar> \<le> 8640000000000000 then Inr millis else Inl RangeError)"

text \<open>
  \<open>Srec.S\<close> and \<open>meta.policyVector\<close> are \<open>undefined\<close> on a document of another shape, and
  \<open>.map\<close> on \<open>undefined\<close> throws a TypeError.
\<close>

definition DecTest :: "tx_context \<Rightarrow> ledger \<Rightarrow> string \<Rightarrow> string \<Rightarrow> ledger \<times> (error + access)" where
  "DecTest ctx l objectId requesterId =
     (case ReadUserVec l requesterId of
        Inl e \<Rightarrow> (l, Inl e)
      | Inr (MetaDoc _) \<Rightarrow> (l, Inl TypeError)
      | Inr (AccessDoc _) \<Rightarrow> (l, Inl TypeError)
      | Inr (AttrDoc _) \<Rightarrow> (l, Inl TypeError)
      | Inr (VecDoc Srec) \<Rightarrow>
     (case mapE BigInt (vec_S Srec) of
        Inl e \<Rightarrow> (l, Inl e)
      | Inr S \<Rightarrow>
     (case GetDataMeta l objectId of
        Inl e \<Rightarrow> (l, Inl e)
      | Inr (VecDoc _) \<Rightarrow> (l, Inl TypeError)
      | Inr (AccessDoc _) \<Rightarrow> (l, Inl TypeError)
      | Inr (AttrDoc _) \<Rightarrow> (l, Inl TypeError)
      | Inr (MetaDoc m) \<Rightarrow>
     (case mapE BigInt (meta_policyVector m) of
        Inl e \<Rightarrow> (l, Inl e)
      | Inr P \<Rightarrow>
     (case innerProductMod S P of
        Inl e \<Rightarrow> (l, Inl e)
      | Inr ip \<Rightarrow>
     (let allowed = (ip = 0);
          sec = tx_seconds ctx;
          nanos = tx_nanos ctx;
          millis = (sec * 1000) + nanos div 1000000
      in case toISOString millis of
           Inl e \<Rightarrow> (l, Inl e)
         | Inr tsISO \<Rightarrow>
     (let txId = tx_id ctx;
          a = \<lparr> acc_objectId = objectId,
                 acc_requesterId = requesterId,
                 acc_allowed = allowed,
                 acc_innerProduct = toString ip,
                 acc_txId = txId,
                 acc_timestamp = tsISO \<rparr>;
          histKey = createCompositeKey ''ACCESS'' [objectId, requesterId, txId];
          l1 = putState l histKey (AccessDoc a);
          lastKey = createCompositeKey ''ACCESS_LAST'' [objectId, requesterId];
          l2 = putState l1 lastKey (AccessDoc a)
      in (l2, Inr a))))))))"

section \<open>SC2: hidden attributes and the user vector (sc2\_attr.js)\<close>

definition CreateHidAtt ::
  "ledger \<Rightarrow> string \<Rightarrow> string \<Rightarrow> string \<Rightarrow> string \<Rightarrow> string \<Rightarrow> ledger \<times> (error + attr)" where
  "CreateHidAtt l userId category chValue rValue aaenId =
     (let k = createCompositeKey ''ATTR'' [userId, category];
          a = \<lparr> attr_userId = userId,
                 attr_category = category,
                 attr_chValue = chValue,
                 attr_rValue = rValue,
                 attr_aaenId = aaenId \<rparr>
      in (putState l k (AttrDoc a), Inr a))"

text \<open>The \<open>while\<close> loop of \<open>GetHiddenAttributes\<close> collects the value of every entry of the scan.\<close>

definition GetHiddenAttributes :: "ledger \<Rightarrow> string \<Rightarrow> doc list" where
  "GetHiddenAttributes l userId = map snd (getStateByPartialCompositeKey l ''ATTR'' [userId])"

text \<open>
  \<open>attrs.sort(compareFn)\<close>: the sort of ECMAScript is stable, and for a comparator that is
  a consistent ordering its result is the one stable sorted arrangement, which insertion
  from the right computes. \<open>compareFn a b \<le> 0\<close> keeps \<open>a\<close> before \<open>b\<close>. (For a comparator
  that is not consistent ECMAScript leaves the order to the implementation; the
  comparator of \<open>CreateUserVec\<close> is \<open>localeCompare\<close>, which ECMAScript requires to be a total
  ordering of the strings.)
\<close>

fun insert_by :: "('a \<Rightarrow> 'a \<Rightarrow> int) \<Rightarrow> 'a \<Rightarrow> 'a list \<Rightarrow> 'a list" where
  "insert_by compareFn a [] = [a]"
| "insert_by compareFn a (b # bs) =
     (if compareFn a b \<le> 0 then a # b # bs else b # insert_by compareFn a bs)"

definition array_sort :: "('a \<Rightarrow> 'a \<Rightarrow> int) \<Rightarrow> 'a list \<Rightarrow> 'a list" where
  "array_sort compareFn xs = foldr (insert_by compareFn) xs []"

text \<open>
  The scanned documents as attribute records. On a document of another shape
  \<open>a.category\<close> and \<open>a.chValue\<close> are \<open>undefined\<close>: the comparator throws a TypeError when
  it calls \<open>localeCompare\<close> on it, and if the sort gets by, \<open>BigInt(undefined)\<close> throws a
  TypeError in the traversal that follows. Either way the call ends with a TypeError
  before anything is written.
\<close>

definition as_attr :: "doc \<Rightarrow> error + attr" where
  "as_attr d = (case d of AttrDoc a \<Rightarrow> Inr a | _ \<Rightarrow> Inl TypeError)"

text \<open>The loop \<open>for (const v of chValues) prodAll = modP(prodAll * v)\<close>.\<close>

fun prodLoop :: "int list \<Rightarrow> int \<Rightarrow> int" where
  "prodLoop [] prodAll = prodAll"
| "prodLoop (v # vs) prodAll = prodLoop vs (modP (prodAll * v))"

text \<open>
  The two nested \<open>for\<close> loops that fill \<open>pairwise\<close> (written \<open>pairwise_acc\<close>): the inner
  one over \<open>j\<close>, the outer over \<open>i\<close>. Both indices stay below the length of \<open>chValues\<close>.
\<close>

function pairwiseInner :: "int list \<Rightarrow> nat \<Rightarrow> nat \<Rightarrow> int list \<Rightarrow> int list" where
  "pairwiseInner chValues i j pairwise_acc =
     (if j < length chValues then
        (let val = modP (chValues ! i * chValues ! j)
         in pairwiseInner chValues i (j + 1) (pairwise_acc @ [val]))
      else pairwise_acc)"
  by pat_completeness auto
termination
  by (relation "measure (\<lambda>(chValues, i, j, pairwise_acc). length chValues - j)") auto

declare pairwiseInner.simps [simp del]

function pairwiseOuter :: "int list \<Rightarrow> nat \<Rightarrow> int list \<Rightarrow> int list" where
  "pairwiseOuter chValues i pairwise_acc =
     (if i < length chValues then
        pairwiseOuter chValues (i + 1) (pairwiseInner chValues i (i + 1) pairwise_acc)
      else pairwise_acc)"
  by pat_completeness auto
termination
  by (relation "measure (\<lambda>(chValues, i, pairwise_acc). length chValues - i)") auto

declare pairwiseOuter.simps [simp del]

text \<open>
  \<open>CreateUserVec\<close>. The comparator of the sort is \<open>String.prototype.localeCompare\<close>, the
  locale-sensitive comparison of the host, which is no code of the repository: it is the
  first parameter.
\<close>

definition CreateUserVec ::
  "(string \<Rightarrow> string \<Rightarrow> int) \<Rightarrow> ledger \<Rightarrow> string \<Rightarrow> ledger \<times> (error + vec_rec)" where
  "CreateUserVec localeCompare l userId =
     (let docs = GetHiddenAttributes l userId
      in if length docs = 0 then (l, Inl (NoHiddenAttributes userId))
      else
     (case mapE as_attr docs of
        Inl e \<Rightarrow> (l, Inl e)
      | Inr attrs \<Rightarrow>
     (let sorted_attrs = array_sort (\<lambda>a b. localeCompare (attr_category a) (attr_category b)) attrs
      in case mapE (\<lambda>a. case BigInt (attr_chValue a) of
                            Inl e \<Rightarrow> Inl e
                          | Inr v \<Rightarrow> Inr (modP v)) sorted_attrs of
           Inl e \<Rightarrow> (l, Inl e)
         | Inr chValues \<Rightarrow>
     (let prodAll = prodLoop chValues 1;
          pairwise_acc = pairwiseOuter chValues 0 [];
          singles = chValues;
          S = [prodAll] @ pairwise_acc @ singles @ [1];
          Sstr = map toString S;
          k = createCompositeKey ''USERVEC'' [userId];
          r = \<lparr> vec_userId = userId, vec_S = Sstr \<rparr>
      in (putState l k (VecDoc r), Inr r)))))"

section \<open>The vector as the specification words it\<close>

text \<open>
  The pairwise products \<open>ch[i] * ch[j]\<close> for all \<open>i < j\<close> in index order
  \<open>(0,1), (0,2), ..., (0,n-1), (1,2), ...\<close>, and the vector built around them: the field
  product of all \<open>ch[i]\<close>, the pairwise products, the singles, and a trailing \<open>1\<close>.
\<close>

definition pairs_spec :: "int list \<Rightarrow> int list" where
  "pairs_spec ch =
     concat (map (\<lambda>i. map (\<lambda>j. (ch ! i * ch ! j) mod PRIME_P) [i + 1 ..< length ch])
                 [0 ..< length ch])"

definition vector_spec :: "int list \<Rightarrow> int list" where
  "vector_spec ch = [prod_list ch mod PRIME_P] @ pairs_spec ch @ ch @ [1]"

text \<open>The attributes in the ordinary lexicographic order of their category strings.\<close>

definition lexicographic_sort :: "attr list \<Rightarrow> attr list" where
  "lexicographic_sort attrs = sort_key attr_category attrs"

section \<open>The comparison of the host on letters and digits\<close>

text \<open>
  Node.js implements \<open>localeCompare\<close> with the collation of ICU. On strings of ASCII
  letters and digits that collation compares first the primary weights, where a digit
  precedes a letter and the case of a letter is ignored, and then, for strings equal at
  that level, the case, lower case first. \<open>localeCompare_alnum\<close> is this comparison; the
  other characters get a primary weight of their own below the digits, which is not
  claimed to be the order of ICU among them.
\<close>

definition alphabetIndex :: "string \<Rightarrow> char \<Rightarrow> nat option" where
  "alphabetIndex letters c =
     map_of (zip letters [0, 1, 2, 3, 4, 5, 6, 7, 8, 9, 10, 11, 12, 13, 14, 15, 16, 17, 18,
                          19, 20, 21, 22, 23, 24, 25]) c"

definition primaryWeight :: "char \<Rightarrow> nat" where
  "primaryWeight c =
     (case alphabetIndex ''0123456789'' c of
        Some d \<Rightarrow> 1000 + d
      | None \<Rightarrow>
     (case alphabetIndex ''abcdefghijklmnopqrstuvwxyz'' c of
        Some k \<Rightarrow> 2000 + k
      | None \<Rightarrow>
     (case alphabetIndex ''ABCDEFGHIJKLMNOPQRSTUVWXYZ'' c of
        Some k \<Rightarrow> 2000 + k
      | None \<Rightarrow> of_char c)))"

definition caseWeight :: "char \<Rightarrow> nat" where
  "caseWeight c = (if alphabetIndex ''ABCDEFGHIJKLMNOPQRSTUVWXYZ'' c = None then 0 else 1)"

definition localeCompare_alnum :: "string \<Rightarrow> string \<Rightarrow> int" where
  "localeCompare_alnum a b =
     (let pa = map primaryWeight a; pb = map primaryWeight b;
          ta = map caseWeight a; tb = map caseWeight b
      in if pa < pb then - 1 else if pb < pa then 1
         else if ta < tb then - 1 else if tb < ta then 1 else 0)"

section \<open>A ledger of SC1 for the scenarios\<close>

text \<open>
  Four stored user vectors and four stored policy vectors, of lengths that match and that
  do not, and a transaction context with a given transaction id.
\<close>

definition example_ledger :: ledger where
  "example_ledger =
     [(CompositeKey ''S'' [''alice''], VecDoc \<lparr> vec_userId = ''alice'', vec_S = [''11'', ''22''] \<rparr>),
      (CompositeKey ''S'' [''bob''],
         VecDoc \<lparr> vec_userId = ''bob'', vec_S = [''1'', ''2'', ''3'', ''4'', ''5''] \<rparr>),
      (CompositeKey ''S'' [''carol''], VecDoc \<lparr> vec_userId = ''carol'', vec_S = [] \<rparr>),
      (CompositeKey ''S'' [''dave''], VecDoc \<lparr> vec_userId = ''dave'', vec_S = [''0'', ''5''] \<rparr>),
      (CompositeKey ''DATA'' [''doc1''],
         MetaDoc \<lparr> meta_objectId = ''doc1'', meta_ownerId = ''owner1'',
                   meta_policyVector = [''1'', ''2''],
                   meta_c0 = ''QzA='', meta_addressCipher = ''YWRkcg=='', meta_ctKeyPart = ''a2V5'' \<rparr>),
      (CompositeKey ''DATA'' [''doc2''],
         MetaDoc \<lparr> meta_objectId = ''doc2'', meta_ownerId = ''owner1'',
                   meta_policyVector = [''7'', ''0''],
                   meta_c0 = ''QzA='', meta_addressCipher = ''YWRkcg=='', meta_ctKeyPart = ''a2V5'' \<rparr>),
      (CompositeKey ''DATA'' [''doc4''],
         MetaDoc \<lparr> meta_objectId = ''doc4'', meta_ownerId = ''owner1'',
                   meta_policyVector = [''1'', ''2'', ''3'', ''4''],
                   meta_c0 = ''QzA='', meta_addressCipher = ''YWRkcg=='', meta_ctKeyPart = ''a2V5'' \<rparr>),
      (CompositeKey ''DATA'' [''doc0''],
         MetaDoc \<lparr> meta_objectId = ''doc0'', meta_ownerId = ''owner1'',
                   meta_policyVector = [],
                   meta_c0 = ''QzA='', meta_addressCipher = ''YWRkcg=='', meta_ctKeyPart = ''a2V5'' \<rparr>)]"

definition example_ctx :: "string \<Rightarrow> tx_context" where
  "example_ctx txId = \<lparr> tx_id = txId, tx_seconds = 1700000000, tx_nanos = 5000000 \<rparr>"

section \<open>A ledger of SC2 for the scenarios\<close>

text \<open>
  Three users: \<open>u1\<close> with the categories \<open>c0\<close> and \<open>c1\<close> (written in the other order),
  \<open>u2\<close> with the categories \<open>a\<close> and \<open>B\<close>, \<open>u3\<close> with three attributes, one of them with a
  negative value.
\<close>

definition example_attr_ledger :: ledger where
  "example_attr_ledger =
     [(CompositeKey ''ATTR'' [''u1'', ''c1''],
         AttrDoc \<lparr> attr_userId = ''u1'', attr_category = ''c1'', attr_chValue = ''1001'',
                   attr_rValue = ''2001'', attr_aaenId = ''AA1'' \<rparr>),
      (CompositeKey ''ATTR'' [''u2'', ''a''],
         AttrDoc \<lparr> attr_userId = ''u2'', attr_category = ''a'', attr_chValue = ''3'',
                   attr_rValue = ''7'', attr_aaenId = ''AA2'' \<rparr>),
      (CompositeKey ''ATTR'' [''u1'', ''c0''],
         AttrDoc \<lparr> attr_userId = ''u1'', attr_category = ''c0'', attr_chValue = ''1000'',
                   attr_rValue = ''2000'', attr_aaenId = ''AA1'' \<rparr>),
      (CompositeKey ''ATTR'' [''u2'', ''B''],
         AttrDoc \<lparr> attr_userId = ''u2'', attr_category = ''B'', attr_chValue = ''2'',
                   attr_rValue = ''5'', attr_aaenId = ''AA2'' \<rparr>),
      (CompositeKey ''ATTR'' [''u3'', ''y''],
         AttrDoc \<lparr> attr_userId = ''u3'', attr_category = ''y'', attr_chValue = ''3'',
                   attr_rValue = ''8'', attr_aaenId = ''AA3'' \<rparr>),
      (CompositeKey ''ATTR'' [''u3'', ''z''],
         AttrDoc \<lparr> attr_userId = ''u3'', attr_category = ''z'', attr_chValue = ''-5'',
                   attr_rValue = ''9'', attr_aaenId = ''AA3'' \<rparr>),
      (CompositeKey ''ATTR'' [''u3'', ''x''],
         AttrDoc \<lparr> attr_userId = ''u3'', attr_category = ''x'', attr_chValue = ''2'',
                   attr_rValue = ''7'', attr_aaenId = ''AA3'' \<rparr>)]"

section \<open>Properties of the field arithmetic\<close>

lemma PRIME_P_pos: "0 < PRIME_P"
  by (simp add: PRIME_P_def)

lemma modP_eq_mod: "modP x = x mod PRIME_P"
proof (cases "x < 0")
  case False
  then have "js_rem x PRIME_P = x mod PRIME_P"
    using PRIME_P_pos by (simp add: js_rem_def)
  moreover have "0 \<le> x mod PRIME_P"
    using PRIME_P_pos by simp
  ultimately show ?thesis
    by (simp add: modP_def)
next
  case True
  let ?m = "(- x) mod PRIME_P"
  have r: "js_rem x PRIME_P = - ?m"
    using True PRIME_P_pos by (simp add: js_rem_def)
  have range: "0 \<le> ?m" "?m < PRIME_P"
    using PRIME_P_pos by simp_all
  show ?thesis
  proof (cases "?m = 0")
    case True
    then have "PRIME_P dvd - x"
      by (simp add: dvd_eq_mod_eq_0)
    then have "PRIME_P dvd x"
      by simp
    then have "x mod PRIME_P = 0"
      by (simp add: dvd_eq_mod_eq_0)
    with True r show ?thesis
      by (simp add: modP_def)
  next
    case False
    with range have neg: "- ?m < 0"
      by simp
    have "x mod PRIME_P = (- (- x)) mod PRIME_P"
      by simp
    also have "\<dots> = (- ?m) mod PRIME_P"
      by (simp only: mod_minus_eq)
    also have "\<dots> = (PRIME_P - ?m) mod PRIME_P"
      by (metis diff_conv_add_uminus add.commute mod_add_self2)
    also have "\<dots> = PRIME_P - ?m"
    proof (rule mod_pos_pos_trivial)
      show "0 \<le> PRIME_P - ?m" using range by simp
      show "PRIME_P - ?m < PRIME_P" using range False by simp
    qed
    finally show ?thesis
      using r neg by (simp add: modP_def)
  qed
qed

lemma modP_range: "0 \<le> modP x" "modP x < PRIME_P"
  using PRIME_P_pos by (simp_all add: modP_eq_mod)

lemma modP_idem: "modP (modP x) = modP x"
  by (simp add: modP_eq_mod)

text \<open>
  C8. For every integer \<open>x\<close>, negative ones included, normalising twice is normalising
  once, and the result of \<open>modP\<close> is a canonical residue: \<open>0 \<le> modP x < p\<close>.
\<close>

theorem modP_idempotent_canonical:
  "modP (modP x) = modP x \<and> 0 \<le> modP x \<and> modP x < PRIME_P"
  using modP_range [of x] by (simp add: modP_idem)

section \<open>Exceptions in a traversal\<close>

lemma mapE_length: "mapE f xs = Inr ys \<Longrightarrow> length ys = length xs"
  by (induction xs arbitrary: ys) (auto split: sum.splits)

lemma mapE_post:
  "mapE (\<lambda>x. case f x of Inl e \<Rightarrow> Inl e | Inr v \<Rightarrow> Inr (g v)) xs =
     (case mapE f xs of Inl e \<Rightarrow> Inl e | Inr vs \<Rightarrow> Inr (map g vs))"
  by (induction xs) (auto split: sum.splits)

section \<open>Reading and writing the ledger\<close>

lemma getState_putState:
  "getState (putState l k v) k' = (if k' = k then Some v else getState l k')"
  by (simp add: getState_def putState_def update_conv')

section \<open>Decimal strings are read back as the integer they print\<close>

lemma digitVal_digitChar: "d < 10 \<Longrightarrow> digitVal 10 (digitChar d) = Some d"
proof -
  assume "d < 10"
  then have "d \<in> {0, 1, 2, 3, 4, 5, 6, 7, 8, 9}" by auto
  then show ?thesis
    by (auto simp add: digitVal_def digitChar_def hexVal_def)
qed

lemma digitChar_in: "d < 10 \<Longrightarrow> digitChar d \<in> set ''0123456789''"
proof -
  assume "d < 10"
  then have "d \<in> {0, 1, 2, 3, 4, 5, 6, 7, 8, 9}" by auto
  then show ?thesis
    by (auto simp add: digitChar_def)
qed

lemma parseDigits_append:
  "parseDigits r (xs @ ys) acc =
     (case parseDigits r xs acc of None \<Rightarrow> None | Some a \<Rightarrow> parseDigits r ys a)"
  by (induction xs arbitrary: acc) (auto split: option.splits)

lemma parseDigits_decimal: "parseDigits 10 (decimal n) 0 = Some n"
proof (induction n rule: decimal.induct)
  case (1 n)
  show ?case
  proof (cases "n < 10")
    case True
    then show ?thesis
      by (subst decimal.simps) (simp add: digitVal_digitChar)
  next
    case False
    then have ih: "parseDigits 10 (decimal (n div 10)) 0 = Some (n div 10)"
      using 1 by simp
    have "n mod 10 < 10" by simp
    then have dv: "digitVal 10 (digitChar (n mod 10)) = Some (n mod 10)"
      by (rule digitVal_digitChar)
    show ?thesis
      using False by (subst decimal.simps) (simp add: parseDigits_append ih dv)
  qed
qed

lemma decimal_digits: "set (decimal n) \<subseteq> set ''0123456789''"
proof (induction n rule: decimal.induct)
  case (1 n)
  show ?case
  proof (cases "n < 10")
    case True
    then show ?thesis
      using digitChar_in [of n] by (subst decimal.simps) simp
  next
    case False
    with 1 have "set (decimal (n div 10)) \<subseteq> set ''0123456789''" by simp
    moreover have "digitChar (n mod 10) \<in> set ''0123456789''"
      by (rule digitChar_in) simp
    ultimately show ?thesis
      using False by (subst decimal.simps) simp
  qed
qed

lemma decimal_not_Nil: "decimal n \<noteq> []"
  by (subst decimal.simps) simp

lemma dropWhile_id: "xs \<noteq> [] \<Longrightarrow> \<not> P (hd xs) \<Longrightarrow> dropWhile P xs = xs"
  by (cases xs) simp_all

lemma trim_id:
  assumes "s \<noteq> []" and "\<not> isStrWhiteSpace (hd s)" and "\<not> isStrWhiteSpace (last s)"
  shows "trim s = s"
proof -
  have a: "dropWhile isStrWhiteSpace s = s"
    using assms by (simp add: dropWhile_id)
  have "rev s \<noteq> []" "hd (rev s) = last s"
    using assms by (simp_all add: hd_rev)
  then have b: "dropWhile isStrWhiteSpace (rev s) = rev s"
    using assms by (simp add: dropWhile_id)
  show ?thesis
    by (simp add: trim_def a b)
qed

lemma digit_not_space: "c \<in> set ''0123456789'' \<Longrightarrow> \<not> isStrWhiteSpace c"
  by (auto simp add: isStrWhiteSpace_def)

lemma digit_not_sign: "c \<in> set ''0123456789'' \<Longrightarrow> c \<noteq> CHR ''-'' \<and> c \<noteq> CHR ''+''"
  by auto

lemma digit_not_prefix:
  "d \<in> set ''0123456789'' \<Longrightarrow>
     d \<noteq> CHR ''x'' \<and> d \<noteq> CHR ''X'' \<and> d \<noteq> CHR ''o'' \<and> d \<noteq> CHR ''O'' \<and> d \<noteq> CHR ''b'' \<and> d \<noteq> CHR ''B''"
  by auto

lemma trim_decimal: "trim (decimal n) = decimal n"
proof (rule trim_id)
  show "decimal n \<noteq> []" by (rule decimal_not_Nil)
  have "hd (decimal n) \<in> set (decimal n)" "last (decimal n) \<in> set (decimal n)"
    using decimal_not_Nil by simp_all
  then have "hd (decimal n) \<in> set ''0123456789''" "last (decimal n) \<in> set ''0123456789''"
    using decimal_digits by blast+
  then show "\<not> isStrWhiteSpace (hd (decimal n))" "\<not> isStrWhiteSpace (last (decimal n))"
    by (simp_all only: digit_not_space not_False_eq_True)
qed

lemma signedInteger_decimal: "signedInteger (decimal n) = Some (int n)"
proof (cases "decimal n")
  case Nil
  then show ?thesis using decimal_not_Nil by simp
next
  case (Cons c ds)
  then have "c \<in> set ''0123456789''"
    using decimal_digits [of n] by auto
  then have "c \<noteq> CHR ''-''" "c \<noteq> CHR ''+''"
    using digit_not_sign by blast+
  then have "signedInteger (decimal n) = parseNat 10 (decimal n)"
    using Cons by (simp add: signedInteger_def)
  then show ?thesis
    by (simp add: parseNat_def decimal_not_Nil parseDigits_decimal)
qed

lemma strIntegerLiteral_decimal: "strIntegerLiteral (decimal n) = Some (int n)"
proof (cases "decimal n")
  case Nil
  then show ?thesis using decimal_not_Nil by simp
next
  case outer: (Cons c ds)
  show ?thesis
  proof (cases ds)
    case Nil
    with outer have "strIntegerLiteral (decimal n) = signedInteger (decimal n)"
      by (simp add: strIntegerLiteral_def)
    then show ?thesis by (simp add: signedInteger_decimal)
  next
    case (Cons d ds')
    with outer have "d \<in> set ''0123456789''"
      using decimal_digits [of n] by auto
    then have "d \<noteq> CHR ''x'' \<and> d \<noteq> CHR ''X'' \<and> d \<noteq> CHR ''o'' \<and> d \<noteq> CHR ''O'' \<and> d \<noteq> CHR ''b'' \<and> d \<noteq> CHR ''B''"
      by (rule digit_not_prefix)
    with outer Cons have "strIntegerLiteral (decimal n) = signedInteger (decimal n)"
      by (simp add: strIntegerLiteral_def)
    then show ?thesis by (simp add: signedInteger_decimal)
  qed
qed

lemma trim_minus_decimal: "trim (CHR ''-'' # decimal n) = CHR ''-'' # decimal n"
proof (rule trim_id)
  show "CHR ''-'' # decimal n \<noteq> []" by simp
  show "\<not> isStrWhiteSpace (hd (CHR ''-'' # decimal n))"
    by (simp add: isStrWhiteSpace_def)
  have "last (decimal n) \<in> set (decimal n)"
    using decimal_not_Nil by simp
  then have "last (decimal n) \<in> set ''0123456789''"
    using decimal_digits by blast
  then have "\<not> isStrWhiteSpace (last (decimal n))"
    by (rule digit_not_space)
  then show "\<not> isStrWhiteSpace (last (CHR ''-'' # decimal n))"
    using decimal_not_Nil by simp
qed

lemma strIntegerLiteral_minus_decimal:
  "strIntegerLiteral (CHR ''-'' # decimal n) = Some (- int n)"
proof -
  have "strIntegerLiteral (CHR ''-'' # decimal n) = signedInteger (CHR ''-'' # decimal n)"
    by (cases "decimal n") (simp_all add: strIntegerLiteral_def)
  also have "\<dots> = map_option uminus (parseNat 10 (decimal n))"
    by (simp add: signedInteger_def)
  also have "\<dots> = Some (- int n)"
    by (simp add: parseNat_def decimal_not_Nil parseDigits_decimal)
  finally show ?thesis .
qed

lemma BigInt_toString: "BigInt (toString x) = Inr x"
proof (cases "x < 0")
  case True
  then show ?thesis
    by (simp add: BigInt_def toString_def trim_minus_decimal strIntegerLiteral_minus_decimal)
next
  case False
  then show ?thesis
    by (simp add: BigInt_def toString_def trim_decimal strIntegerLiteral_decimal decimal_not_Nil)
qed

lemma mapE_BigInt_toString: "mapE BigInt (map toString xs) = Inr xs"
  by (induction xs) (simp_all add: BigInt_toString)

section \<open>The loops in closed form\<close>

lemma modP_absorb: "modP (a + modP b) = (a + b) mod PRIME_P"
  by (simp add: modP_eq_mod mod_add_right_eq)

lemma innerProductLoop_eq:
  "innerProductLoop S P i acc =
     (if i < length S
      then (acc + (\<Sum>k = i..<length S. modP (S ! k) * modP (P ! k))) mod PRIME_P
      else acc)"
proof (induction S P i acc rule: innerProductLoop.induct)
  case (1 S P i acc)
  show ?case
  proof (cases "i < length S")
    case False
    then show ?thesis
      by (subst innerProductLoop.simps) simp
  next
    case True
    let ?t = "modP (S ! i) * modP (P ! i)"
    let ?acc' = "modP (acc + modP ?t)"
    have step: "innerProductLoop S P i acc = innerProductLoop S P (i + 1) ?acc'"
      using True by (subst innerProductLoop.simps) (simp add: Let_def)
    have ih: "innerProductLoop S P (i + 1) ?acc' =
        (if i + 1 < length S
         then (?acc' + (\<Sum>k = i + 1..<length S. modP (S ! k) * modP (P ! k))) mod PRIME_P
         else ?acc')"
      using True by (rule "1.IH" [OF _ refl refl])
    have split: "(\<Sum>k = i..<length S. modP (S ! k) * modP (P ! k)) =
        ?t + (\<Sum>k = i + 1..<length S. modP (S ! k) * modP (P ! k))"
      using True by (simp add: sum.atLeast_Suc_lessThan)
    show ?thesis
    proof (cases "i + 1 < length S")
      case True
      have "(?acc' + (\<Sum>k = i + 1..<length S. modP (S ! k) * modP (P ! k))) mod PRIME_P =
          (acc + ?t + (\<Sum>k = i + 1..<length S. modP (S ! k) * modP (P ! k))) mod PRIME_P"
        by (simp add: modP_absorb mod_add_left_eq)
      then show ?thesis
        using \<open>i < length S\<close> True step ih split by (simp add: add.assoc)
    next
      case False
      then have "(\<Sum>k = i + 1..<length S. modP (S ! k) * modP (P ! k)) = 0"
        by simp
      then show ?thesis
        using \<open>i < length S\<close> False step ih split by (simp add: modP_absorb)
    qed
  qed
qed

lemma innerProductMod_eq:
  "length S = length P \<Longrightarrow>
     innerProductMod S P = Inr ((\<Sum>i < length S. modP (S ! i) * modP (P ! i)) mod PRIME_P)"
  by (cases "S = []") (simp_all add: innerProductMod_def innerProductLoop_eq atLeast0LessThan)

lemma prodLoop_eq: "prodLoop vs (modP a) = (a * prod_list vs) mod PRIME_P"
proof (induction vs arbitrary: a)
  case Nil
  then show ?case by (simp add: modP_eq_mod)
next
  case (Cons v vs)
  have "prodLoop (v # vs) (modP a) = prodLoop vs (modP (modP a * v))"
    by simp
  also have "\<dots> = (modP a * v * prod_list vs) mod PRIME_P"
    by (rule Cons.IH)
  also have "\<dots> = (a * (v * prod_list vs)) mod PRIME_P"
    by (simp add: modP_eq_mod mult.assoc mod_mult_left_eq)
  finally show ?case by simp
qed

lemma prodLoop_one: "prodLoop vs 1 = prod_list vs mod PRIME_P"
proof -
  have "modP 1 = 1"
    by (simp add: modP_eq_mod PRIME_P_def)
  then show ?thesis
    using prodLoop_eq [of vs 1] by simp
qed

lemma pairwiseInner_eq:
  "pairwiseInner ch i j acc = acc @ map (\<lambda>j. (ch ! i * ch ! j) mod PRIME_P) [j ..< length ch]"
proof (induction ch i j acc rule: pairwiseInner.induct)
  case (1 ch i j acc)
  show ?case
  proof (cases "j < length ch")
    case False
    then show ?thesis
      by (subst pairwiseInner.simps) simp
  next
    case True
    have "pairwiseInner ch i j acc = pairwiseInner ch i (j + 1) (acc @ [modP (ch ! i * ch ! j)])"
      using True by (subst pairwiseInner.simps) (simp add: Let_def)
    also have "\<dots> = (acc @ [modP (ch ! i * ch ! j)])
        @ map (\<lambda>j. (ch ! i * ch ! j) mod PRIME_P) [j + 1 ..< length ch]"
      using True by (rule "1.IH" [OF _ refl])
    finally show ?thesis
      using True by (simp add: upt_conv_Cons modP_eq_mod)
  qed
qed

lemma pairwiseOuter_eq:
  "pairwiseOuter ch i acc =
     acc @ concat (map (\<lambda>i. map (\<lambda>j. (ch ! i * ch ! j) mod PRIME_P) [i + 1 ..< length ch])
                       [i ..< length ch])"
proof (induction ch i acc rule: pairwiseOuter.induct)
  case (1 ch i acc)
  show ?case
  proof (cases "i < length ch")
    case False
    then show ?thesis
      by (subst pairwiseOuter.simps) simp
  next
    case True
    have "pairwiseOuter ch i acc = pairwiseOuter ch (i + 1) (pairwiseInner ch i (i + 1) acc)"
      using True by (subst pairwiseOuter.simps) simp
    also have "\<dots> = pairwiseInner ch i (i + 1) acc
        @ concat (map (\<lambda>i. map (\<lambda>j. (ch ! i * ch ! j) mod PRIME_P) [i + 1 ..< length ch])
                      [i + 1 ..< length ch])"
      using True by (rule "1.IH")
    finally show ?thesis
      using True by (simp add: upt_conv_Cons pairwiseInner_eq)
  qed
qed

lemma pairwiseOuter_spec: "pairwiseOuter ch 0 [] = pairs_spec ch"
  by (simp add: pairwiseOuter_eq pairs_spec_def)

lemma length_pairs_from:
  "length (concat (map (\<lambda>i. map (f i) [i + 1 ..< n]) [n - k ..< n])) = k * (k - 1) div 2"
  if "k \<le> n" for f :: "nat \<Rightarrow> nat \<Rightarrow> int"
  using that
proof (induction k)
  case 0
  then show ?case by simp
next
  case (Suc k)
  then have lt: "n - Suc k < n" and nxt: "Suc (n - Suc k) = n - k"
    by simp_all
  have "[n - Suc k ..< n] = (n - Suc k) # [n - k ..< n]"
    using lt nxt by (simp add: upt_conv_Cons)
  then have "length (concat (map (\<lambda>i. map (f i) [i + 1 ..< n]) [n - Suc k ..< n])) =
      (n - (n - k)) + length (concat (map (\<lambda>i. map (f i) [i + 1 ..< n]) [n - k ..< n]))"
    using nxt by simp
  also have "\<dots> = k + k * (k - 1) div 2"
    using Suc by simp
  also have "\<dots> = Suc k * (Suc k - 1) div 2"
    by (cases k) simp_all
  finally show ?case .
qed

lemma length_pairs_spec: "length (pairs_spec ch) = length ch * (length ch - 1) div 2"
  using length_pairs_from [of "length ch" "length ch" "\<lambda>i j. (ch ! i * ch ! j) mod PRIME_P"]
  by (simp add: pairs_spec_def)

lemma length_vector_spec:
  "length (vector_spec ch) = 2 + length ch + length ch * (length ch - 1) div 2"
  by (simp add: vector_spec_def length_pairs_spec)

section \<open>The sort\<close>

lemma set_insert_by: "set (insert_by cmp a bs) = insert a (set bs)"
  by (induction bs) auto

lemma mset_insert_by: "mset (insert_by cmp a bs) = add_mset a (mset bs)"
  by (induction bs) auto

lemma mset_array_sort: "mset (array_sort cmp xs) = mset xs"
  by (induction xs) (simp_all add: array_sort_def mset_insert_by)

lemma length_array_sort: "length (array_sort cmp xs) = length xs"
  using mset_array_sort [of cmp xs] by (metis size_mset)

lemma set_array_sort: "set (array_sort cmp xs) = set xs"
  using mset_array_sort [of cmp xs] by (metis set_mset_mset)

lemma sorted_insert_by:
  assumes total: "\<And>a b. cmp a b \<le> 0 \<or> cmp b a \<le> 0"
      and trans: "\<And>a b c. cmp a b \<le> 0 \<Longrightarrow> cmp b c \<le> 0 \<Longrightarrow> cmp a c \<le> 0"
      and "sorted_wrt (\<lambda>a b. cmp a b \<le> 0) bs"
  shows "sorted_wrt (\<lambda>a b. cmp a b \<le> (0::int)) (insert_by cmp a bs)"
  using assms(3)
proof (induction bs)
  case Nil
  then show ?case by simp
next
  case (Cons b bs)
  show ?case
  proof (cases "cmp a b \<le> 0")
    case True
    then have "\<forall>c \<in> set bs. cmp a c \<le> 0"
      using Cons.prems trans by auto
    with True Cons.prems show ?thesis by simp
  next
    case False
    then have "cmp b a \<le> 0"
      using total by blast
    with False Cons show ?thesis
      by (auto simp add: set_insert_by)
  qed
qed

lemma sorted_array_sort:
  assumes "\<And>a b. cmp a b \<le> 0 \<or> cmp b a \<le> 0"
      and "\<And>a b c. cmp a b \<le> 0 \<Longrightarrow> cmp b c \<le> 0 \<Longrightarrow> cmp a c \<le> 0"
  shows "sorted_wrt (\<lambda>a b. cmp a b \<le> (0::int)) (array_sort cmp xs)"
proof (induction xs)
  case Nil
  show ?case by (simp add: array_sort_def)
next
  case (Cons x xs)
  have "array_sort cmp (x # xs) = insert_by cmp x (array_sort cmp xs)"
    by (simp add: array_sort_def)
  with Cons show ?case
    using sorted_insert_by [of cmp "array_sort cmp xs" x] assms by simp
qed

lemma insert_by_insort_key:
  "(\<And>b. b \<in> set bs \<Longrightarrow> (cmp a b \<le> 0) = (f a \<le> f b)) \<Longrightarrow> insert_by cmp a bs = insort_key f a bs"
  by (induction bs) auto

lemma array_sort_sort_key:
  assumes "\<And>a b. a \<in> set xs \<Longrightarrow> b \<in> set xs \<Longrightarrow> (cmp a b \<le> 0) = (f a \<le> f b)"
  shows "array_sort cmp xs = sort_key f xs"
  using assms
proof (induction xs)
  case Nil
  show ?case by (simp add: array_sort_def)
next
  case (Cons x xs)
  then have ih: "array_sort cmp xs = sort_key f xs"
    by simp
  have "array_sort cmp (x # xs) = insert_by cmp x (array_sort cmp xs)"
    by (simp add: array_sort_def)
  also have "\<dots> = insort_key f x (array_sort cmp xs)"
  proof (rule insert_by_insort_key)
    fix b assume "b \<in> set (array_sort cmp xs)"
    then have "b \<in> set xs" by (simp add: set_array_sort)
    then show "(cmp x b \<le> 0) = (f x \<le> f b)"
      using Cons.prems by simp
  qed
  finally show ?case
    by (simp add: ih)
qed

section \<open>The decision of SC1\<close>

lemma DecTest_success:
  assumes S: "getState l (createCompositeKey ''S'' [requesterId]) = Some (VecDoc Srec)"
      and Sv: "mapE BigInt (vec_S Srec) = Inr S"
      and P: "getState l (createCompositeKey ''DATA'' [objectId]) = Some (MetaDoc m)"
      and Pv: "mapE BigInt (meta_policyVector m) = Inr P"
      and ip: "innerProductMod S P = Inr ip"
      and ts: "\<bar>tx_seconds ctx * 1000 + tx_nanos ctx div 1000000\<bar> \<le> 8640000000000000"
  shows "DecTest ctx l objectId requesterId =
     (let a = \<lparr> acc_objectId = objectId, acc_requesterId = requesterId,
                  acc_allowed = (ip = 0), acc_innerProduct = toString ip,
                  acc_txId = tx_id ctx,
                  acc_timestamp = tx_seconds ctx * 1000 + tx_nanos ctx div 1000000 \<rparr>
      in (putState
            (putState l (createCompositeKey ''ACCESS'' [objectId, requesterId, tx_id ctx]) (AccessDoc a))
            (createCompositeKey ''ACCESS_LAST'' [objectId, requesterId]) (AccessDoc a),
          Inr a))"
  using assms
  by (simp add: DecTest_def ReadUserVec_def GetDataMeta_def toISOString_def Let_def)

lemma DecTest_Inr:
  assumes "DecTest ctx l objectId requesterId = (l', Inr a)"
  shows "l' = putState
            (putState l (createCompositeKey ''ACCESS'' [objectId, requesterId, tx_id ctx]) (AccessDoc a))
            (createCompositeKey ''ACCESS_LAST'' [objectId, requesterId]) (AccessDoc a)
       \<and> acc_txId a = tx_id ctx"
  using assms
  by (auto simp add: DecTest_def Let_def split: sum.splits doc.splits)

text \<open>A call of \<open>DecTest\<close> that throws has written nothing.\<close>

lemma DecTest_Inl:
  assumes "DecTest ctx l objectId requesterId = (l', Inl e)"
  shows "l' = l"
  using assms
  by (auto simp add: DecTest_def Let_def split: sum.splits doc.splits)

lemma CreateVec_success:
  assumes "mapE BigInt P_str = Inr raw"
  shows "CreateVec l objectId ownerId P_str c0Base64 addressCipherBase64 ctKeyPartBase64 =
     (let m = \<lparr> meta_objectId = objectId, meta_ownerId = ownerId,
                  meta_policyVector = map (\<lambda>x. toString (modP x)) raw,
                  meta_c0 = c0Base64, meta_addressCipher = addressCipherBase64,
                  meta_ctKeyPart = ctKeyPartBase64 \<rparr>
      in (putState l (createCompositeKey ''DATA'' [objectId]) (MetaDoc m), Inr m))"
  using assms by (simp add: CreateVec_def mapE_post Let_def)

lemma StoreUserVec_success:
  assumes "mapE BigInt S_str = Inr raw"
  shows "StoreUserVec l userId S_str =
     (let r = \<lparr> vec_userId = userId, vec_S = map (\<lambda>x. toString (modP x)) raw \<rparr>
      in (putState l (createCompositeKey ''S'' [userId]) (VecDoc r), Inr r))"
  using assms by (simp add: StoreUserVec_def mapE_post Let_def)

lemma mapE_BigInt_normalized:
  "mapE BigInt (map (\<lambda>x. toString (modP x)) raw) = Inr (map modP raw)"
  using mapE_BigInt_toString [of "map modP raw"] by (simp add: comp_def)

lemma list_all_modP: "list_all (\<lambda>v. 0 \<le> v \<and> v < PRIME_P) (map modP raw)"
  by (simp add: list_all_iff modP_range)

text \<open>Rules that evaluate the codec and the ledger on concrete inputs.\<close>

lemmas BigInt_eval = BigInt_def trim_def isStrWhiteSpace_def strIntegerLiteral_def
  signedInteger_def parseNat_def digitVal_def hexVal_def

lemmas toString_eval = toString_def decimal.simps digitChar_def

lemmas ledger_eval = getState_def putState_def createCompositeKey_def

text \<open>
  C1. When a user vector \<open>S\<close> and a policy vector \<open>P\<close> of equal length are stored (as
  decimal strings that \<open>BigInt\<close> reads back), \<open>DecTest\<close> succeeds; its inner product is
  the sum over \<open>i\<close> of \<open>modP (S[i]) * modP (P[i])\<close>, reduced modulo \<open>p\<close>; the verdict is
  \<open>allowed = (ip = 0)\<close>; and the access record that is returned, and that is stored under
  the history key and under the latest-decision key, carries this flag and this value (in
  decimal). The instant of the transaction must be one that \<open>Date\<close> can represent.
\<close>

theorem DecTest_inner_product:
  assumes "getState l (createCompositeKey ''S'' [requesterId]) = Some (VecDoc Srec)"
      and "mapE BigInt (vec_S Srec) = Inr S"
      and "getState l (createCompositeKey ''DATA'' [objectId]) = Some (MetaDoc m)"
      and "mapE BigInt (meta_policyVector m) = Inr P"
      and "length S = length P"
      and "\<bar>tx_seconds ctx * 1000 + tx_nanos ctx div 1000000\<bar> \<le> 8640000000000000"
  shows "let ip = (\<Sum>i < length S. modP (S ! i) * modP (P ! i)) mod PRIME_P
         in \<exists>l' a. DecTest ctx l objectId requesterId = (l', Inr a)
              \<and> acc_allowed a = (ip = 0)
              \<and> acc_innerProduct a = toString ip
              \<and> BigInt (acc_innerProduct a) = Inr ip
              \<and> getState l' (createCompositeKey ''ACCESS'' [objectId, requesterId, tx_id ctx])
                    = Some (AccessDoc a)
              \<and> getState l' (createCompositeKey ''ACCESS_LAST'' [objectId, requesterId])
                    = Some (AccessDoc a)"
proof -
  let ?ip = "(\<Sum>i < length S. modP (S ! i) * modP (P ! i)) mod PRIME_P"
  have ip: "innerProductMod S P = Inr ?ip"
    using assms(5) by (rule innerProductMod_eq)
  have distinct_keys: "createCompositeKey ''ACCESS'' [objectId, requesterId, tx_id ctx]
      \<noteq> createCompositeKey ''ACCESS_LAST'' [objectId, requesterId]"
    by (simp add: createCompositeKey_def)
  show ?thesis
    unfolding Let_def DecTest_success [OF assms(1-4) ip assms(6), unfolded Let_def]
    using distinct_keys by (simp add: getState_putState BigInt_toString)
qed

text \<open>Witness: alice holds \<open>[11, 22]\<close>, doc1 has the policy \<open>[1, 2]\<close>, the inner product is 55.\<close>

theorem DecTest_inner_product_witness:
  "\<exists>l' a. DecTest (example_ctx ''tx1'') example_ledger ''doc1'' ''alice'' = (l', Inr a)
      \<and> acc_allowed a = False \<and> acc_innerProduct a = ''55''
      \<and> getState l' (createCompositeKey ''ACCESS'' [''doc1'', ''alice'', ''tx1'']) = Some (AccessDoc a)
      \<and> getState l' (createCompositeKey ''ACCESS_LAST'' [''doc1'', ''alice'']) = Some (AccessDoc a)"
proof -
  have S: "getState example_ledger (createCompositeKey ''S'' [''alice''])
      = Some (VecDoc \<lparr> vec_userId = ''alice'', vec_S = [''11'', ''22''] \<rparr>)"
    by (simp add: ledger_eval example_ledger_def)
  have Sv: "mapE BigInt (vec_S \<lparr> vec_userId = ''alice'', vec_S = [''11'', ''22''] \<rparr>) = Inr [11, 22]"
    by (simp add: BigInt_eval)
  have P: "getState example_ledger (createCompositeKey ''DATA'' [''doc1''])
      = Some (MetaDoc \<lparr> meta_objectId = ''doc1'', meta_ownerId = ''owner1'',
                   meta_policyVector = [''1'', ''2''],
                   meta_c0 = ''QzA='', meta_addressCipher = ''YWRkcg=='', meta_ctKeyPart = ''a2V5'' \<rparr>)"
    by (simp add: ledger_eval example_ledger_def)
  have Pv: "mapE BigInt (meta_policyVector \<lparr> meta_objectId = ''doc1'', meta_ownerId = ''owner1'',
                   meta_policyVector = [''1'', ''2''],
                   meta_c0 = ''QzA='', meta_addressCipher = ''YWRkcg=='', meta_ctKeyPart = ''a2V5'' \<rparr>) = Inr [1, 2]"
    by (simp add: BigInt_eval)
  have len: "length [11, 22 :: int] = length [1, 2 :: int]"
    by simp
  have ts: "\<bar>tx_seconds (example_ctx ''tx1'') * 1000 + tx_nanos (example_ctx ''tx1'') div 1000000\<bar>
      \<le> 8640000000000000"
    by (simp add: example_ctx_def)
  have ip: "(\<Sum>i < length [11, 22 :: int]. modP ([11, 22] ! i) * modP ([1, 2] ! i)) mod PRIME_P = 55"
    by (simp add: modP_eq_mod PRIME_P_def lessThan_Suc numeral_2_eq_2)
  have str: "toString 55 = ''55''"
    by (simp add: toString_eval)
  show ?thesis
    using DecTest_inner_product [OF S Sv P Pv len ts]
    unfolding Let_def ip str
    by (simp add: example_ctx_def) blast
qed

text \<open>
  C5. When the stored user vector and the stored policy vector have different lengths,
  \<open>DecTest\<close> fails with the length-mismatch error of \<open>innerProductMod\<close>, and the ledger it
  leaves is the ledger it was given: no access record is appended and the latest-decision
  entry is not touched.
\<close>

theorem DecTest_dimension_mismatch:
  assumes "getState l (createCompositeKey ''S'' [requesterId]) = Some (VecDoc Srec)"
      and "mapE BigInt (vec_S Srec) = Inr S"
      and "getState l (createCompositeKey ''DATA'' [objectId]) = Some (MetaDoc m)"
      and "mapE BigInt (meta_policyVector m) = Inr P"
      and "length S \<noteq> length P"
  shows "DecTest ctx l objectId requesterId = (l, Inl (LengthMismatch (length S) (length P)))"
  using assms
  by (simp add: DecTest_def ReadUserVec_def GetDataMeta_def innerProductMod_def)

text \<open>Witness (scenario C): bob holds a vector of length 5, doc4 a policy of length 4.\<close>

theorem DecTest_dimension_mismatch_witness:
  "DecTest (example_ctx ''tx1'') example_ledger ''doc4'' ''bob''
     = (example_ledger, Inl (LengthMismatch 5 4))"
proof -
  have S: "getState example_ledger (createCompositeKey ''S'' [''bob''])
      = Some (VecDoc \<lparr> vec_userId = ''bob'', vec_S = [''1'', ''2'', ''3'', ''4'', ''5''] \<rparr>)"
    by (simp add: ledger_eval example_ledger_def)
  have Sv: "mapE BigInt (vec_S \<lparr> vec_userId = ''bob'', vec_S = [''1'', ''2'', ''3'', ''4'', ''5''] \<rparr>)
      = Inr [1, 2, 3, 4, 5]"
    by (simp add: BigInt_eval)
  have P: "getState example_ledger (createCompositeKey ''DATA'' [''doc4''])
      = Some (MetaDoc \<lparr> meta_objectId = ''doc4'', meta_ownerId = ''owner1'',
                   meta_policyVector = [''1'', ''2'', ''3'', ''4''],
                   meta_c0 = ''QzA='', meta_addressCipher = ''YWRkcg=='', meta_ctKeyPart = ''a2V5'' \<rparr>)"
    by (simp add: ledger_eval example_ledger_def)
  have Pv: "mapE BigInt (meta_policyVector \<lparr> meta_objectId = ''doc4'', meta_ownerId = ''owner1'',
                   meta_policyVector = [''1'', ''2'', ''3'', ''4''],
                   meta_c0 = ''QzA='', meta_addressCipher = ''YWRkcg=='', meta_ctKeyPart = ''a2V5'' \<rparr>)
      = Inr [1, 2, 3, 4]"
    by (simp add: BigInt_eval)
  have len: "length [1, 2, 3, 4, 5 :: int] \<noteq> length [1, 2, 3, 4 :: int]"
    by simp
  show ?thesis
    using DecTest_dimension_mismatch [OF S Sv P Pv len, of "example_ctx ''tx1''"]
    by simp
qed

text \<open>
  C6. \<open>CreateVec\<close> on a raw vector of integers (decimal strings that \<open>BigInt\<close> reads as
  \<open>raw\<close>) succeeds, and \<open>GetDataMeta\<close> for the same object then returns the record whose
  policy vector holds, element by element, the decimal string of \<open>modP\<close> of the raw input:
  read back, the elements are the canonical residues \<open>modP x\<close> in \<open>[0, p)\<close>, not the raw
  inputs.
\<close>

theorem CreateVec_GetDataMeta_normalized:
  assumes "mapE BigInt P_str = Inr raw"
  shows "\<exists>l' m. CreateVec l objectId ownerId P_str c0Base64 addressCipherBase64 ctKeyPartBase64
                  = (l', Inr m)
           \<and> GetDataMeta l' objectId = Inr (MetaDoc m)
           \<and> meta_policyVector m = map (\<lambda>x. toString (modP x)) raw
           \<and> mapE BigInt (meta_policyVector m) = Inr (map modP raw)
           \<and> list_all (\<lambda>v. 0 \<le> v \<and> v < PRIME_P) (map modP raw)"
  unfolding CreateVec_success [OF assms, unfolded Let_def]
  by (simp add: GetDataMeta_def getState_putState mapE_BigInt_normalized list_all_modP)

text \<open>Witness: the raw vector \<open>-1, 5, 0x10\<close> is stored as \<open>p - 1, 5, 16\<close>.\<close>

theorem CreateVec_GetDataMeta_normalized_witness:
  "mapE BigInt [''-1'', ''5'', '' 0x10 ''] = Inr [- 1, 5, 16]
   \<and> (\<exists>l' m. CreateVec example_ledger ''doc9'' ''owner1'' [''-1'', ''5'', '' 0x10 '']
                 ''QzA='' ''YWRkcg=='' ''a2V5'' = (l', Inr m)
         \<and> GetDataMeta l' ''doc9'' = Inr (MetaDoc m)
         \<and> meta_policyVector m = [toString (PRIME_P - 1), ''5'', ''16'']
         \<and> mapE BigInt (meta_policyVector m) = Inr [PRIME_P - 1, 5, 16])"
proof -
  have raw: "mapE BigInt [''-1'', ''5'', '' 0x10 ''] = Inr [- 1, 5, 16]"
    by (simp add: BigInt_eval)
  have norm: "map modP [- 1, 5, 16] = [PRIME_P - 1, 5, 16]"
    by (simp add: modP_eq_mod PRIME_P_def)
  have str: "toString 5 = ''5''" "toString 16 = ''16''"
    by (simp_all add: toString_eval)
  have strs: "map (\<lambda>x. toString (modP x)) [- 1, 5, 16] = [toString (PRIME_P - 1), ''5'', ''16'']"
    using norm str by simp
  show ?thesis
    using CreateVec_GetDataMeta_normalized [OF raw, of example_ledger "''doc9''" "''owner1''"
        "''QzA=''" "''YWRkcg==''" "''a2V5''"] raw
    unfolding strs norm by blast
qed

text \<open>
  C7. Two successful calls of \<open>DecTest\<close> in sequence for the same object and requester, in
  transactions with different transaction ids, write two different access records under
  two different history keys; the first record is still there after the second call; and
  after each call the latest-decision entry of the pair is the very record that the call
  appended.
\<close>

theorem DecTest_twice:
  assumes first: "DecTest ctx1 l objectId requesterId = (l1, Inr a1)"
      and second: "DecTest ctx2 l1 objectId requesterId = (l2, Inr a2)"
      and txs: "tx_id ctx1 \<noteq> tx_id ctx2"
  shows "let histKey1 = createCompositeKey ''ACCESS'' [objectId, requesterId, tx_id ctx1];
             histKey2 = createCompositeKey ''ACCESS'' [objectId, requesterId, tx_id ctx2];
             lastKey = createCompositeKey ''ACCESS_LAST'' [objectId, requesterId]
         in histKey1 \<noteq> histKey2 \<and> a1 \<noteq> a2
          \<and> getState l1 histKey1 = Some (AccessDoc a1)
          \<and> getState l1 lastKey = Some (AccessDoc a1)
          \<and> getState l2 histKey1 = Some (AccessDoc a1)
          \<and> getState l2 histKey2 = Some (AccessDoc a2)
          \<and> getState l2 lastKey = Some (AccessDoc a2)"
proof -
  note r1 = DecTest_Inr [OF first] and r2 = DecTest_Inr [OF second]
  have "a1 \<noteq> a2"
    using r1 r2 txs by auto
  moreover have "createCompositeKey ''ACCESS'' [objectId, requesterId, tx_id ctx1]
      \<noteq> createCompositeKey ''ACCESS'' [objectId, requesterId, tx_id ctx2]"
    using txs by (simp add: createCompositeKey_def)
  moreover have "\<And>t. createCompositeKey ''ACCESS'' [objectId, requesterId, t]
      \<noteq> createCompositeKey ''ACCESS_LAST'' [objectId, requesterId]"
    by (simp add: createCompositeKey_def)
  ultimately show ?thesis
    using r1 r2 txs by (simp add: Let_def getState_putState)
qed

text \<open>Witness (scenario D): dave asks twice for doc2, in the transactions tx1 and tx2.\<close>

theorem DecTest_twice_witness:
  "\<exists>l1 a1 l2 a2.
      DecTest (example_ctx ''tx1'') example_ledger ''doc2'' ''dave'' = (l1, Inr a1)
    \<and> DecTest (example_ctx ''tx2'') l1 ''doc2'' ''dave'' = (l2, Inr a2)
    \<and> tx_id (example_ctx ''tx1'') \<noteq> tx_id (example_ctx ''tx2'')
    \<and> a1 \<noteq> a2
    \<and> getState l1 (createCompositeKey ''ACCESS_LAST'' [''doc2'', ''dave'']) = Some (AccessDoc a1)
    \<and> getState l2 (createCompositeKey ''ACCESS'' [''doc2'', ''dave'', ''tx1'']) = Some (AccessDoc a1)
    \<and> getState l2 (createCompositeKey ''ACCESS'' [''doc2'', ''dave'', ''tx2'']) = Some (AccessDoc a2)
    \<and> getState l2 (createCompositeKey ''ACCESS_LAST'' [''doc2'', ''dave'']) = Some (AccessDoc a2)"
proof -
  let ?Srec = "\<lparr> vec_userId = ''dave'', vec_S = [''0'', ''5''] \<rparr>"
  let ?m = "\<lparr> meta_objectId = ''doc2'', meta_ownerId = ''owner1'',
              meta_policyVector = [''7'', ''0''],
              meta_c0 = ''QzA='', meta_addressCipher = ''YWRkcg=='', meta_ctKeyPart = ''a2V5'' \<rparr>"
  have S: "getState example_ledger (createCompositeKey ''S'' [''dave'']) = Some (VecDoc ?Srec)"
    by (simp add: ledger_eval example_ledger_def)
  have Sv: "mapE BigInt (vec_S ?Srec) = Inr [0, 5]"
    by (simp add: BigInt_eval)
  have P: "getState example_ledger (createCompositeKey ''DATA'' [''doc2'']) = Some (MetaDoc ?m)"
    by (simp add: ledger_eval example_ledger_def)
  have Pv: "mapE BigInt (meta_policyVector ?m) = Inr [7, 0]"
    by (simp add: BigInt_eval)
  have ip: "innerProductMod [0, 5] [7, 0] = Inr 0"
    by (simp add: innerProductMod_eq modP_eq_mod PRIME_P_def lessThan_Suc numeral_2_eq_2)
  have ts: "\<bar>tx_seconds (example_ctx t) * 1000 + tx_nanos (example_ctx t) div 1000000\<bar>
      \<le> 8640000000000000" for t
    by (simp add: example_ctx_def)
  obtain l1 a1 where first: "DecTest (example_ctx ''tx1'') example_ledger ''doc2'' ''dave'' = (l1, Inr a1)"
    using DecTest_success [OF S Sv P Pv ip ts] by (simp add: Let_def)
  have l1: "l1 = putState
            (putState example_ledger
               (createCompositeKey ''ACCESS'' [''doc2'', ''dave'', tx_id (example_ctx ''tx1'')]) (AccessDoc a1))
            (createCompositeKey ''ACCESS_LAST'' [''doc2'', ''dave'']) (AccessDoc a1)"
    using DecTest_Inr [OF first] by simp
  have S1: "getState l1 (createCompositeKey ''S'' [''dave'']) = Some (VecDoc ?Srec)"
    using S by (simp add: l1 getState_putState createCompositeKey_def)
  have P1: "getState l1 (createCompositeKey ''DATA'' [''doc2'']) = Some (MetaDoc ?m)"
    using P by (simp add: l1 getState_putState createCompositeKey_def)
  obtain l2 a2 where second: "DecTest (example_ctx ''tx2'') l1 ''doc2'' ''dave'' = (l2, Inr a2)"
    using DecTest_success [OF S1 Sv P1 Pv ip ts] by (simp add: Let_def)
  have txs: "tx_id (example_ctx ''tx1'') \<noteq> tx_id (example_ctx ''tx2'')"
    by (simp add: example_ctx_def)
  have ids: "tx_id (example_ctx ''tx1'') = ''tx1''" "tx_id (example_ctx ''tx2'') = ''tx2''"
    by (simp_all add: example_ctx_def)
  show ?thesis
    using DecTest_twice [OF first second txs] first second txs
    unfolding Let_def ids by blast
qed

text \<open>
  C9. \<open>StoreUserVec\<close> on a vector of integers (decimal strings that \<open>BigInt\<close> reads as
  \<open>raw\<close>) succeeds and stores, under the \<open>S\<close> key of the user, the decimal strings of
  \<open>modP\<close> of the elements; what \<open>ReadUserVec\<close> returns, and \<open>DecTest\<close> then reads back
  with \<open>BigInt\<close>, is the vector of the canonical residues, each in \<open>[0, p)\<close>, whatever the
  sign and the size of the submitted elements.
\<close>

theorem StoreUserVec_canonical:
  assumes "mapE BigInt S_str = Inr raw"
  shows "\<exists>l' r. StoreUserVec l userId S_str = (l', Inr r)
           \<and> ReadUserVec l' userId = Inr (VecDoc r)
           \<and> vec_S r = map (\<lambda>x. toString (modP x)) raw
           \<and> mapE BigInt (vec_S r) = Inr (map modP raw)
           \<and> list_all (\<lambda>v. 0 \<le> v \<and> v < PRIME_P) (map modP raw)"
  unfolding StoreUserVec_success [OF assms, unfolded Let_def]
  by (simp add: ReadUserVec_def getState_putState mapE_BigInt_normalized list_all_modP)

text \<open>Witness: the submitted vector \<open>-3, 12, 007\<close> is stored as \<open>p - 3, 12, 7\<close>.\<close>

theorem StoreUserVec_canonical_witness:
  "mapE BigInt [''-3'', ''12'', ''007''] = Inr [- 3, 12, 7]
   \<and> (\<exists>l' r. StoreUserVec example_ledger ''erin'' [''-3'', ''12'', ''007''] = (l', Inr r)
         \<and> ReadUserVec l' ''erin'' = Inr (VecDoc r)
         \<and> vec_S r = [toString (PRIME_P - 3), ''12'', ''7'']
         \<and> mapE BigInt (vec_S r) = Inr [PRIME_P - 3, 12, 7]
         \<and> 0 \<le> PRIME_P - 3 \<and> PRIME_P - 3 < PRIME_P)"
proof -
  have raw: "mapE BigInt [''-3'', ''12'', ''007''] = Inr [- 3, 12, 7]"
    by (simp add: BigInt_eval)
  have norm: "map modP [- 3, 12, 7] = [PRIME_P - 3, 12, 7]"
    by (simp add: modP_eq_mod PRIME_P_def)
  have str: "toString 12 = ''12''" "toString 7 = ''7''"
    by (simp_all add: toString_eval)
  have strs: "map (\<lambda>x. toString (modP x)) [- 3, 12, 7] = [toString (PRIME_P - 3), ''12'', ''7'']"
    using norm str by simp
  show ?thesis
    using StoreUserVec_canonical [OF raw, of example_ledger "''erin''"] raw
    unfolding strs norm by (simp add: PRIME_P_def)
qed

text \<open>
  C10. When the stored user vector and the stored policy vector are both empty, \<open>DecTest\<close>
  succeeds: the inner product is the empty sum, the record says \<open>innerProduct = "0"\<close> and
  \<open>allowed = true\<close>, and it is appended.
\<close>

theorem DecTest_empty_vectors:
  assumes "getState l (createCompositeKey ''S'' [requesterId]) = Some (VecDoc Srec)"
      and "vec_S Srec = []"
      and "getState l (createCompositeKey ''DATA'' [objectId]) = Some (MetaDoc m)"
      and "meta_policyVector m = []"
      and "\<bar>tx_seconds ctx * 1000 + tx_nanos ctx div 1000000\<bar> \<le> 8640000000000000"
  shows "\<exists>l' a. DecTest ctx l objectId requesterId = (l', Inr a)
           \<and> acc_allowed a = True
           \<and> acc_innerProduct a = ''0''
           \<and> getState l' (createCompositeKey ''ACCESS'' [objectId, requesterId, tx_id ctx])
                 = Some (AccessDoc a)"
proof -
  have Sv: "mapE BigInt (vec_S Srec) = Inr []" and Pv: "mapE BigInt (meta_policyVector m) = Inr []"
    using assms by simp_all
  have ip: "innerProductMod [] [] = Inr 0"
    by (simp add: innerProductMod_def innerProductLoop.simps)
  have str: "toString 0 = ''0''"
    by (simp add: toString_def decimal.simps digitChar_def)
  show ?thesis
    unfolding DecTest_success [OF assms(1) Sv assms(3) Pv ip assms(5), unfolded Let_def]
    by (simp add: str getState_putState createCompositeKey_def)
qed

text \<open>Witness: carol holds the empty vector and doc0 has the empty policy.\<close>

theorem DecTest_empty_vectors_witness:
  "\<exists>l' a. DecTest (example_ctx ''tx7'') example_ledger ''doc0'' ''carol'' = (l', Inr a)
      \<and> acc_allowed a = True \<and> acc_innerProduct a = ''0''"
proof -
  have S: "getState example_ledger (createCompositeKey ''S'' [''carol''])
      = Some (VecDoc \<lparr> vec_userId = ''carol'', vec_S = [] \<rparr>)"
    by (simp add: ledger_eval example_ledger_def)
  have Sv: "vec_S \<lparr> vec_userId = ''carol'', vec_S = [] \<rparr> = []"
    by simp
  have P: "getState example_ledger (createCompositeKey ''DATA'' [''doc0''])
      = Some (MetaDoc \<lparr> meta_objectId = ''doc0'', meta_ownerId = ''owner1'',
                   meta_policyVector = [],
                   meta_c0 = ''QzA='', meta_addressCipher = ''YWRkcg=='', meta_ctKeyPart = ''a2V5'' \<rparr>)"
    by (simp add: ledger_eval example_ledger_def)
  have Pv: "meta_policyVector \<lparr> meta_objectId = ''doc0'', meta_ownerId = ''owner1'',
                   meta_policyVector = [],
                   meta_c0 = ''QzA='', meta_addressCipher = ''YWRkcg=='', meta_ctKeyPart = ''a2V5'' \<rparr> = []"
    by simp
  have ts: "\<bar>tx_seconds (example_ctx ''tx7'') * 1000 + tx_nanos (example_ctx ''tx7'') div 1000000\<bar>
      \<le> 8640000000000000"
    by (simp add: example_ctx_def)
  show ?thesis
    using DecTest_empty_vectors [OF S Sv P Pv ts] by blast
qed

section \<open>The user vector of SC2\<close>

lemma CreateUserVec_success:
  assumes attrs: "mapE as_attr (GetHiddenAttributes l userId) = Inr attrs"
      and nonempty: "attrs \<noteq> []"
      and raw: "mapE (\<lambda>a. BigInt (attr_chValue a))
                  (array_sort (\<lambda>a b. localeCompare (attr_category a) (attr_category b)) attrs)
                = Inr raw"
  shows "CreateUserVec localeCompare l userId =
     (let r = \<lparr> vec_userId = userId, vec_S = map toString (vector_spec (map modP raw)) \<rparr>
      in (putState l (createCompositeKey ''USERVEC'' [userId]) (VecDoc r), Inr r))"
proof -
  have "length (GetHiddenAttributes l userId) = length attrs"
    using mapE_length [OF attrs] by simp
  then have len: "length (GetHiddenAttributes l userId) \<noteq> 0"
    using nonempty by simp
  show ?thesis
    using attrs raw len
    by (simp add: CreateUserVec_def Let_def mapE_post vector_spec_def
        prodLoop_one pairwiseOuter_spec)
qed

lemma CreateUserVec_Inr:
  assumes "CreateUserVec localeCompare l userId = (l', Inr r)"
  shows "\<exists>attrs raw. mapE as_attr (GetHiddenAttributes l userId) = Inr attrs
           \<and> attrs \<noteq> []
           \<and> mapE (\<lambda>a. BigInt (attr_chValue a))
                  (array_sort (\<lambda>a b. localeCompare (attr_category a) (attr_category b)) attrs)
                = Inr raw
           \<and> r = \<lparr> vec_userId = userId, vec_S = map toString (vector_spec (map modP raw)) \<rparr>
           \<and> l' = putState l (createCompositeKey ''USERVEC'' [userId]) (VecDoc r)"
proof (cases "length (GetHiddenAttributes l userId) = 0")
  case True
  with assms show ?thesis
    by (simp add: CreateUserVec_def)
next
  case False
  show ?thesis
  proof (cases "mapE as_attr (GetHiddenAttributes l userId)")
    case (Inl e)
    with assms False show ?thesis
      by (simp add: CreateUserVec_def)
  next
    case attrs: (Inr attrs)
    have nonempty: "attrs \<noteq> []"
      using mapE_length [OF attrs] False by auto
    show ?thesis
    proof (cases "mapE (\<lambda>a. BigInt (attr_chValue a))
                  (array_sort (\<lambda>a b. localeCompare (attr_category a) (attr_category b)) attrs)")
      case (Inl e)
      with assms False attrs show ?thesis
        by (simp add: CreateUserVec_def Let_def mapE_post)
    next
      case (Inr raw)
      from assms CreateUserVec_success [OF attrs nonempty Inr]
      have "r = \<lparr> vec_userId = userId, vec_S = map toString (vector_spec (map modP raw)) \<rparr>"
        and "l' = putState l (createCompositeKey ''USERVEC'' [userId]) (VecDoc r)"
        by (auto simp add: Let_def)
      with attrs nonempty Inr show ?thesis
        by blast
    qed
  qed
qed

text \<open>A call of \<open>CreateUserVec\<close> that throws has written nothing.\<close>

lemma CreateUserVec_Inl:
  assumes "CreateUserVec localeCompare l userId = (l', Inl e)"
  shows "l' = l"
  using assms
  by (auto simp add: CreateUserVec_def Let_def split: sum.splits if_splits)

lemma vector_spec_one: "vector_spec [modP a] = [modP a, modP a, 1]"
  by (simp add: vector_spec_def pairs_spec_def modP_eq_mod)

lemma vector_spec_two:
  "vector_spec [modP a, modP b] = [modP (a * b), modP (a * b), modP a, modP b, 1]"
  by (simp add: vector_spec_def pairs_spec_def upt_conv_Cons modP_eq_mod mod_mult_eq)

lemma localeCompare_alnum_le:
  "(localeCompare_alnum a b \<le> 0) =
     (map primaryWeight a < map primaryWeight b
      \<or> (map primaryWeight a = map primaryWeight b \<and> map caseWeight a \<le> map caseWeight b))"
  by (auto simp add: localeCompare_alnum_def Let_def)

lemma localeCompare_alnum_total:
  "\<forall>a b. localeCompare_alnum a b \<le> 0 \<or> localeCompare_alnum b a \<le> 0"
  unfolding localeCompare_alnum_le by auto

lemma localeCompare_alnum_trans:
  "\<forall>a b c. localeCompare_alnum a b \<le> 0 \<longrightarrow> localeCompare_alnum b c \<le> 0
     \<longrightarrow> localeCompare_alnum a c \<le> 0"
  unfolding localeCompare_alnum_le by auto

text \<open>Rules that evaluate the scan, the comparison and the vector on concrete inputs.\<close>

lemmas attr_eval = GetHiddenAttributes_def getStateByPartialCompositeKey_def as_attr_def
  example_attr_ledger_def

lemmas localeCompare_eval = array_sort_def localeCompare_alnum_def primaryWeight_def
  caseWeight_def alphabetIndex_def

lemmas vector_eval = vector_spec_def pairs_spec_def upt_conv_Cons modP_eq_mod PRIME_P_def

text \<open>
  C2. For a user with \<open>n \<ge> 1\<close> hidden attributes whose values are integers,
  \<open>CreateUserVec\<close> succeeds and returns the vector made of: the product of all the
  normalised values \<open>ch\<close>, reduced modulo \<open>p\<close>; the products \<open>ch[i] * ch[j]\<close> modulo \<open>p\<close> for
  \<open>i < j\<close>, in the order \<open>(0,1), (0,2), ..., (0,n-1), (1,2), ...\<close>; the values
  \<open>ch[0], ..., ch[n-1]\<close>; and a final \<open>1\<close>. The index is the position in the sorted list of
  attributes. For one attribute of value \<open>a\<close> the vector is \<open>[modP a, modP a, 1]\<close>; for two
  attributes of values \<open>a\<close> and \<open>b\<close> it is
  \<open>[modP (a * b), modP (a * b), modP a, modP b, 1]\<close>.
\<close>

theorem CreateUserVec_vector:
  assumes "mapE as_attr (GetHiddenAttributes l userId) = Inr attrs"
      and "1 \<le> length attrs"
      and "mapE (\<lambda>a. BigInt (attr_chValue a))
             (array_sort (\<lambda>a b. localeCompare (attr_category a) (attr_category b)) attrs)
           = Inr raw"
  shows "let ch = map modP raw;
             n = length ch;
             S = [prod_list ch mod PRIME_P]
                 @ concat (map (\<lambda>i. map (\<lambda>j. (ch ! i * ch ! j) mod PRIME_P) [i + 1 ..< n]) [0 ..< n])
                 @ ch
                 @ [1]
         in n = length attrs
          \<and> (\<exists>l'. CreateUserVec localeCompare l userId
                     = (l', Inr \<lparr> vec_userId = userId, vec_S = map toString S \<rparr>))
          \<and> (\<forall>a. raw = [a] \<longrightarrow> S = [modP a, modP a, 1])
          \<and> (\<forall>a b. raw = [a, b] \<longrightarrow> S = [modP (a * b), modP (a * b), modP a, modP b, 1])"
proof -
  have nonempty: "attrs \<noteq> []"
    using assms(2) by auto
  have len: "length raw = length attrs"
    using mapE_length [OF assms(3)] by (simp add: length_array_sort)
  have S: "[prod_list (map modP raw) mod PRIME_P]
      @ concat (map (\<lambda>i. map (\<lambda>j. (map modP raw ! i * map modP raw ! j) mod PRIME_P)
                               [i + 1 ..< length (map modP raw)]) [0 ..< length (map modP raw)])
      @ map modP raw @ [1] = vector_spec (map modP raw)"
    by (simp add: vector_spec_def pairs_spec_def)
  have one: "\<forall>a. raw = [a] \<longrightarrow> vector_spec (map modP raw) = [modP a, modP a, 1]"
    by (simp add: vector_spec_one)
  have two: "\<forall>a b. raw = [a, b] \<longrightarrow>
      vector_spec (map modP raw) = [modP (a * b), modP (a * b), modP a, modP b, 1]"
    by (simp add: vector_spec_two)
  have run: "\<exists>l'. CreateUserVec localeCompare l userId
      = (l', Inr \<lparr> vec_userId = userId, vec_S = map toString (vector_spec (map modP raw)) \<rparr>)"
    using CreateUserVec_success [OF assms(1) nonempty assms(3)] by (simp add: Let_def)
  show ?thesis
    unfolding Let_def S using len one two run by simp
qed

text \<open>
  Witness: scenario A (the categories \<open>c0\<close> and \<open>c1\<close> with the values 1000 and 1001) and
  scenario E (one attribute written for a user who had none).
\<close>

theorem CreateUserVec_vector_witness:
  "(\<exists>l'. CreateUserVec localeCompare_alnum example_attr_ledger ''u1''
            = (l', Inr \<lparr> vec_userId = ''u1'',
                           vec_S = [''1001000'', ''1001000'', ''1000'', ''1001'', ''1''] \<rparr>))
   \<and> GetHiddenAttributes example_attr_ledger ''u9'' = []
   \<and> (\<exists>l'. CreateUserVec localeCompare_alnum
               (fst (CreateHidAtt example_attr_ledger ''u9'' ''c0'' ''1000'' ''2000'' ''AA1'')) ''u9''
            = (l', Inr \<lparr> vec_userId = ''u9'', vec_S = [''1000'', ''1000'', ''1''] \<rparr>))"
proof -
  let ?c0 = "\<lparr> attr_userId = ''u1'', attr_category = ''c0'', attr_chValue = ''1000'',
                attr_rValue = ''2000'', attr_aaenId = ''AA1'' \<rparr>"
  let ?c1 = "\<lparr> attr_userId = ''u1'', attr_category = ''c1'', attr_chValue = ''1001'',
                attr_rValue = ''2001'', attr_aaenId = ''AA1'' \<rparr>"
  let ?cmp = "\<lambda>a b. localeCompare_alnum (attr_category a) (attr_category b)"
  have attrs: "mapE as_attr (GetHiddenAttributes example_attr_ledger ''u1'') = Inr [?c0, ?c1]"
    by (simp add: attr_eval)
  have len: "1 \<le> length [?c0, ?c1]"
    by simp
  have sorted: "array_sort ?cmp [?c0, ?c1] = [?c0, ?c1]"
    by (simp add: localeCompare_eval)
  have raw: "mapE (\<lambda>a. BigInt (attr_chValue a)) (array_sort ?cmp [?c0, ?c1]) = Inr [1000, 1001]"
    unfolding sorted by (simp add: BigInt_eval)
  have A: "\<exists>l'. CreateUserVec localeCompare_alnum example_attr_ledger ''u1''
            = (l', Inr \<lparr> vec_userId = ''u1'',
                           vec_S = [''1001000'', ''1001000'', ''1000'', ''1001'', ''1''] \<rparr>)"
    using CreateUserVec_vector [OF attrs len raw]
    by (simp add: Let_def modP_eq_mod PRIME_P_def toString_eval)
  let ?l = "fst (CreateHidAtt example_attr_ledger ''u9'' ''c0'' ''1000'' ''2000'' ''AA1'')"
  let ?e = "\<lparr> attr_userId = ''u9'', attr_category = ''c0'', attr_chValue = ''1000'',
               attr_rValue = ''2000'', attr_aaenId = ''AA1'' \<rparr>"
  have none: "GetHiddenAttributes example_attr_ledger ''u9'' = []"
    by (simp add: attr_eval)
  have l: "?l = example_attr_ledger @ [(CompositeKey ''ATTR'' [''u9'', ''c0''], AttrDoc ?e)]"
    by (simp add: CreateHidAtt_def Let_def ledger_eval example_attr_ledger_def)
  have attrs': "mapE as_attr (GetHiddenAttributes ?l ''u9'') = Inr [?e]"
    unfolding l by (simp add: attr_eval)
  have len': "1 \<le> length [?e]"
    by simp
  have raw': "mapE (\<lambda>a. BigInt (attr_chValue a)) (array_sort ?cmp [?e]) = Inr [1000]"
    by (simp add: array_sort_def BigInt_eval)
  have E: "\<exists>l'. CreateUserVec localeCompare_alnum ?l ''u9''
            = (l', Inr \<lparr> vec_userId = ''u9'', vec_S = [''1000'', ''1000'', ''1''] \<rparr>)"
    using CreateUserVec_vector [OF attrs' len' raw']
    by (simp add: Let_def modP_eq_mod PRIME_P_def toString_eval)
  from A none E show ?thesis
    by blast
qed

text \<open>
  C3. The vector that \<open>CreateUserVec\<close> returns for a user with \<open>n\<close> hidden attributes (and
  it returns one only if \<open>n \<ge> 1\<close>) has length \<open>2 + n + n (n - 1) / 2\<close>.
\<close>

theorem CreateUserVec_length:
  assumes "CreateUserVec localeCompare l userId = (l', Inr r)"
  shows "let n = length (GetHiddenAttributes l userId)
         in 1 \<le> n \<and> length (vec_S r) = 2 + n + n * (n - 1) div 2"
proof -
  obtain attrs raw where attrs: "mapE as_attr (GetHiddenAttributes l userId) = Inr attrs"
    and nonempty: "attrs \<noteq> []"
    and raw: "mapE (\<lambda>a. BigInt (attr_chValue a))
                  (array_sort (\<lambda>a b. localeCompare (attr_category a) (attr_category b)) attrs)
                = Inr raw"
    and r: "r = \<lparr> vec_userId = userId, vec_S = map toString (vector_spec (map modP raw)) \<rparr>"
    using CreateUserVec_Inr [OF assms] by blast
  have n: "length attrs = length (GetHiddenAttributes l userId)"
    using mapE_length [OF attrs] .
  have "length raw = length attrs"
    using mapE_length [OF raw] by (simp add: length_array_sort)
  with n have "length (map modP raw) = length (GetHiddenAttributes l userId)"
    by simp
  moreover have "1 \<le> length attrs"
    using nonempty by (cases attrs) simp_all
  ultimately show ?thesis
    using n by (simp add: r Let_def length_vector_spec)
qed

text \<open>Witness: three attributes give a vector of length 8.\<close>

theorem CreateUserVec_length_witness:
  "\<exists>l' r. CreateUserVec localeCompare_alnum example_attr_ledger ''u3'' = (l', Inr r)
      \<and> length (GetHiddenAttributes example_attr_ledger ''u3'') = 3
      \<and> length (vec_S r) = 8"
proof -
  let ?x = "\<lparr> attr_userId = ''u3'', attr_category = ''x'', attr_chValue = ''2'',
               attr_rValue = ''7'', attr_aaenId = ''AA3'' \<rparr>"
  let ?y = "\<lparr> attr_userId = ''u3'', attr_category = ''y'', attr_chValue = ''3'',
               attr_rValue = ''8'', attr_aaenId = ''AA3'' \<rparr>"
  let ?z = "\<lparr> attr_userId = ''u3'', attr_category = ''z'', attr_chValue = ''-5'',
               attr_rValue = ''9'', attr_aaenId = ''AA3'' \<rparr>"
  let ?cmp = "\<lambda>a b. localeCompare_alnum (attr_category a) (attr_category b)"
  have docs: "GetHiddenAttributes example_attr_ledger ''u3'' = [AttrDoc ?x, AttrDoc ?y, AttrDoc ?z]"
    by (simp add: attr_eval)
  have attrs: "mapE as_attr (GetHiddenAttributes example_attr_ledger ''u3'') = Inr [?x, ?y, ?z]"
    unfolding docs by (simp add: as_attr_def)
  have sorted: "array_sort ?cmp [?x, ?y, ?z] = [?x, ?y, ?z]"
    by (simp add: localeCompare_eval)
  have raw: "mapE (\<lambda>a. BigInt (attr_chValue a)) (array_sort ?cmp [?x, ?y, ?z]) = Inr [2, 3, - 5]"
    unfolding sorted by (simp add: BigInt_eval)
  obtain l' r where run: "CreateUserVec localeCompare_alnum example_attr_ledger ''u3'' = (l', Inr r)"
    using CreateUserVec_success [OF attrs _ raw] by (simp add: Let_def)
  show ?thesis
    using CreateUserVec_length [OF run] run docs by (simp add: Let_def)
qed

text \<open>
  C4, as the specification states it, says that the attributes are sorted by category in
  the ordinary lexicographic order of strings. The code sorts with \<open>localeCompare\<close>. For the
  user \<open>u2\<close>, with the categories \<open>a\<close> (value 3) and \<open>B\<close> (value 2), the lexicographic order
  is \<open>B, a\<close> and would give the vector \<open>6, 6, 2, 3, 1\<close>; the comparison of the host puts
  \<open>a\<close> before \<open>B\<close>, and \<open>CreateUserVec\<close> returns \<open>6, 6, 3, 2, 1\<close>.
\<close>

theorem CreateUserVec_lexicographic_counterexample:
  "mapE as_attr (GetHiddenAttributes example_attr_ledger ''u2'')
     = Inr [\<lparr> attr_userId = ''u2'', attr_category = ''B'', attr_chValue = ''2'',
               attr_rValue = ''5'', attr_aaenId = ''AA2'' \<rparr>,
            \<lparr> attr_userId = ''u2'', attr_category = ''a'', attr_chValue = ''3'',
               attr_rValue = ''7'', attr_aaenId = ''AA2'' \<rparr>]
   \<and> map attr_category (lexicographic_sort
         [\<lparr> attr_userId = ''u2'', attr_category = ''B'', attr_chValue = ''2'',
             attr_rValue = ''5'', attr_aaenId = ''AA2'' \<rparr>,
          \<lparr> attr_userId = ''u2'', attr_category = ''a'', attr_chValue = ''3'',
             attr_rValue = ''7'', attr_aaenId = ''AA2'' \<rparr>]) = [''B'', ''a'']
   \<and> map toString (vector_spec (map modP [2, 3])) = [''6'', ''6'', ''2'', ''3'', ''1'']
   \<and> snd (CreateUserVec localeCompare_alnum example_attr_ledger ''u2'')
       = Inr \<lparr> vec_userId = ''u2'', vec_S = [''6'', ''6'', ''3'', ''2'', ''1''] \<rparr>"
proof -
  let ?B = "\<lparr> attr_userId = ''u2'', attr_category = ''B'', attr_chValue = ''2'',
               attr_rValue = ''5'', attr_aaenId = ''AA2'' \<rparr>"
  let ?a = "\<lparr> attr_userId = ''u2'', attr_category = ''a'', attr_chValue = ''3'',
               attr_rValue = ''7'', attr_aaenId = ''AA2'' \<rparr>"
  have attrs: "mapE as_attr (GetHiddenAttributes example_attr_ledger ''u2'') = Inr [?B, ?a]"
    by (simp add: attr_eval)
  have lex: "map attr_category (lexicographic_sort [?B, ?a]) = [''B'', ''a'']"
    by (simp add: lexicographic_sort_def)
  have claimed: "map toString (vector_spec (map modP [2, 3])) = [''6'', ''6'', ''2'', ''3'', ''1'']"
    by (simp add: vector_eval toString_eval)
  have sorted: "array_sort (\<lambda>a b. localeCompare_alnum (attr_category a) (attr_category b)) [?B, ?a]
      = [?a, ?B]"
    by (simp add: localeCompare_eval)
  have raw: "mapE (\<lambda>a. BigInt (attr_chValue a))
      (array_sort (\<lambda>a b. localeCompare_alnum (attr_category a) (attr_category b)) [?B, ?a])
      = Inr [3, 2]"
    unfolding sorted by (simp add: BigInt_eval)
  have actual: "map toString (vector_spec (map modP [3, 2])) = [''6'', ''6'', ''3'', ''2'', ''1'']"
    by (simp add: vector_eval toString_eval)
  have "snd (CreateUserVec localeCompare_alnum example_attr_ledger ''u2'')
      = Inr \<lparr> vec_userId = ''u2'', vec_S = [''6'', ''6'', ''3'', ''2'', ''1''] \<rparr>"
    using CreateUserVec_success [OF attrs _ raw] actual by (simp add: Let_def)
  with attrs lex claimed show ?thesis
    by simp
qed

text \<open>
  C4, amended. Before building the vector, \<open>CreateUserVec\<close> sorts the hidden attributes of
  the user by category with the comparison \<open>localeCompare\<close> of the host: for a comparison
  that is a consistent ordering, the vector is built on a rearrangement of the attributes
  that is sorted for that comparison, and position \<open>i\<close> of that rearrangement is the index
  \<open>i\<close> of the product, of the pairwise products and of the singles. The order is the
  lexicographic one when the comparison of the host agrees with it on the categories of
  the user.
\<close>

theorem CreateUserVec_sorted_by_localeCompare:
  assumes total: "\<forall>a b. localeCompare a b \<le> 0 \<or> localeCompare b a \<le> 0"
      and trans: "\<forall>a b c. localeCompare a b \<le> 0 \<longrightarrow> localeCompare b c \<le> 0
                    \<longrightarrow> localeCompare a c \<le> 0"
      and run: "CreateUserVec localeCompare l userId = (l', Inr r)"
  shows "\<exists>attrs sorted_attrs raw.
           mapE as_attr (GetHiddenAttributes l userId) = Inr attrs
         \<and> mset sorted_attrs = mset attrs
         \<and> sorted_wrt (\<lambda>a b. localeCompare (attr_category a) (attr_category b) \<le> 0) sorted_attrs
         \<and> mapE (\<lambda>a. BigInt (attr_chValue a)) sorted_attrs = Inr raw
         \<and> vec_S r = map toString (vector_spec (map modP raw))
         \<and> ((\<forall>a \<in> set attrs. \<forall>b \<in> set attrs.
                 (localeCompare (attr_category a) (attr_category b) \<le> 0)
                   = (attr_category a \<le> attr_category b))
              \<longrightarrow> sorted_attrs = lexicographic_sort attrs)"
proof -
  let ?cmp = "\<lambda>a b. localeCompare (attr_category a) (attr_category b)"
  obtain attrs raw where attrs: "mapE as_attr (GetHiddenAttributes l userId) = Inr attrs"
    and raw: "mapE (\<lambda>a. BigInt (attr_chValue a)) (array_sort ?cmp attrs) = Inr raw"
    and r: "r = \<lparr> vec_userId = userId, vec_S = map toString (vector_spec (map modP raw)) \<rparr>"
    using CreateUserVec_Inr [OF run] by blast
  have perm: "mset (array_sort ?cmp attrs) = mset attrs"
    by (rule mset_array_sort)
  have sorted: "sorted_wrt (\<lambda>a b. ?cmp a b \<le> 0) (array_sort ?cmp attrs)"
  proof (rule sorted_array_sort)
    show "?cmp a b \<le> 0 \<or> ?cmp b a \<le> 0" for a b
      using total by blast
    show "?cmp a b \<le> 0 \<Longrightarrow> ?cmp b c \<le> 0 \<Longrightarrow> ?cmp a c \<le> 0" for a b c
      using trans by blast
  qed
  have lex: "array_sort ?cmp attrs = lexicographic_sort attrs"
    if "\<forall>a \<in> set attrs. \<forall>b \<in> set attrs. (?cmp a b \<le> 0) = (attr_category a \<le> attr_category b)"
    unfolding lexicographic_sort_def
    by (rule array_sort_sort_key) (use that in blast)
  show ?thesis
    using attrs perm sorted raw r lex by (intro exI [of _ attrs] exI [of _ "array_sort ?cmp attrs"] exI [of _ raw]) simp
qed

text \<open>Witness: the categories \<open>c0\<close> and \<open>c1\<close>, on which the two orders agree.\<close>

theorem CreateUserVec_sorted_by_localeCompare_witness:
  "\<exists>l' r sorted_attrs.
      CreateUserVec localeCompare_alnum example_attr_ledger ''u1'' = (l', Inr r)
    \<and> sorted_attrs = lexicographic_sort
         [\<lparr> attr_userId = ''u1'', attr_category = ''c0'', attr_chValue = ''1000'',
             attr_rValue = ''2000'', attr_aaenId = ''AA1'' \<rparr>,
          \<lparr> attr_userId = ''u1'', attr_category = ''c1'', attr_chValue = ''1001'',
             attr_rValue = ''2001'', attr_aaenId = ''AA1'' \<rparr>]
    \<and> mapE (\<lambda>a. BigInt (attr_chValue a)) sorted_attrs = Inr [1000, 1001]
    \<and> vec_S r = map toString (vector_spec (map modP [1000, 1001]))"
proof -
  let ?c0 = "\<lparr> attr_userId = ''u1'', attr_category = ''c0'', attr_chValue = ''1000'',
                attr_rValue = ''2000'', attr_aaenId = ''AA1'' \<rparr>"
  let ?c1 = "\<lparr> attr_userId = ''u1'', attr_category = ''c1'', attr_chValue = ''1001'',
                attr_rValue = ''2001'', attr_aaenId = ''AA1'' \<rparr>"
  let ?cmp = "\<lambda>a b. localeCompare_alnum (attr_category a) (attr_category b)"
  have attrs: "mapE as_attr (GetHiddenAttributes example_attr_ledger ''u1'') = Inr [?c0, ?c1]"
    by (simp add: attr_eval)
  have sorted: "array_sort ?cmp [?c0, ?c1] = [?c0, ?c1]"
    by (simp add: localeCompare_eval)
  have raw: "mapE (\<lambda>a. BigInt (attr_chValue a)) (array_sort ?cmp [?c0, ?c1]) = Inr [1000, 1001]"
    unfolding sorted by (simp add: BigInt_eval)
  obtain l' r where run: "CreateUserVec localeCompare_alnum example_attr_ledger ''u1'' = (l', Inr r)"
    using CreateUserVec_success [OF attrs _ raw] by (simp add: Let_def)
  have agree: "\<forall>a \<in> set [?c0, ?c1]. \<forall>b \<in> set [?c0, ?c1].
      (localeCompare_alnum (attr_category a) (attr_category b) \<le> 0)
        = (attr_category a \<le> attr_category b)"
    by (simp add: localeCompare_alnum_def primaryWeight_def caseWeight_def alphabetIndex_def)
  have lex: "lexicographic_sort [?c0, ?c1] = [?c0, ?c1]"
    by (simp add: lexicographic_sort_def)
  have parsed: "mapE (\<lambda>a. BigInt (attr_chValue a)) [?c0, ?c1] = Inr [1000, 1001]"
    by (simp add: BigInt_eval)
  obtain sorted_attrs raw' where
      "mapE (\<lambda>a. BigInt (attr_chValue a)) sorted_attrs = Inr raw'"
      "vec_S r = map toString (vector_spec (map modP raw'))"
      "sorted_attrs = lexicographic_sort [?c0, ?c1]"
    using CreateUserVec_sorted_by_localeCompare
      [where localeCompare = localeCompare_alnum,
       OF localeCompare_alnum_total localeCompare_alnum_trans run] attrs agree
    by auto
  with run lex parsed show ?thesis
    by auto
qed

end
